theory Spec2Isabelle
  imports Main "HOL-Library.Sublist" "HOL-Library.Multiset"
begin

section \<open>Strings\<close>

text \<open>
  A JavaScript string is modelled as a \<open>string\<close>: a list of characters whose code units
  lie below 256. The helpers below are the \<open>String.prototype\<close> methods the cookie engine
  calls, written out for that alphabet.
\<close>

definition code :: "char \<Rightarrow> nat" where
  "code c = of_char c"

definition isWhiteSpace :: "char \<Rightarrow> bool" where
  \<comment> \<open>what \<open>trim\<close> strips and \<open>\s\<close> matches: TAB, LF, VT, FF, CR, SP, NBSP\<close>
  "isWhiteSpace c =
     (let n = code c in n = 9 \<or> n = 10 \<or> n = 11 \<or> n = 12 \<or> n = 13 \<or> n = 32 \<or> n = 160)"

definition trim :: "string \<Rightarrow> string" where
  "trim s = rev (dropWhile isWhiteSpace (rev (dropWhile isWhiteSpace s)))"

definition upperLetters :: string where
  \<comment> \<open>the letters \<open>toLowerCase\<close> changes: \<open>A\<close> to \<open>Z\<close>, and the capitals of Latin-1\<close>
  "upperLetters = ''ABCDEFGHIJKLMNOPQRSTUVWXYZ'' @
     [CHR 0xC0, CHR 0xC1, CHR 0xC2, CHR 0xC3, CHR 0xC4, CHR 0xC5, CHR 0xC6, CHR 0xC7,
      CHR 0xC8, CHR 0xC9, CHR 0xCA, CHR 0xCB, CHR 0xCC, CHR 0xCD, CHR 0xCE, CHR 0xCF,
      CHR 0xD0, CHR 0xD1, CHR 0xD2, CHR 0xD3, CHR 0xD4, CHR 0xD5, CHR 0xD6, CHR 0xD8,
      CHR 0xD9, CHR 0xDA, CHR 0xDB, CHR 0xDC, CHR 0xDD, CHR 0xDE]"

definition lowerLetters :: string where
  "lowerLetters = ''abcdefghijklmnopqrstuvwxyz'' @
     [CHR 0xE0, CHR 0xE1, CHR 0xE2, CHR 0xE3, CHR 0xE4, CHR 0xE5, CHR 0xE6, CHR 0xE7,
      CHR 0xE8, CHR 0xE9, CHR 0xEA, CHR 0xEB, CHR 0xEC, CHR 0xED, CHR 0xEE, CHR 0xEF,
      CHR 0xF0, CHR 0xF1, CHR 0xF2, CHR 0xF3, CHR 0xF4, CHR 0xF5, CHR 0xF6, CHR 0xF8,
      CHR 0xF9, CHR 0xFA, CHR 0xFB, CHR 0xFC, CHR 0xFD, CHR 0xFE]"

definition lowerChar :: "char \<Rightarrow> char" where
  "lowerChar c = (case map_of (zip upperLetters lowerLetters) c of Some d \<Rightarrow> d | None \<Rightarrow> c)"

definition toLowerCase :: "string \<Rightarrow> string" where
  "toLowerCase s = map lowerChar s"

fun indexOfFrom :: "string \<Rightarrow> string \<Rightarrow> nat \<Rightarrow> int" where
  "indexOfFrom pat [] k = (if pat = [] then int k else - 1)"
| "indexOfFrom pat (c # cs) k =
     (if prefix pat (c # cs) then int k else indexOfFrom pat cs (Suc k))"

definition indexOf :: "string \<Rightarrow> string \<Rightarrow> int" where
  \<comment> \<open>\<open>s.indexOf(pat)\<close>: the position of the first occurrence, or \<open>-1\<close>\<close>
  "indexOf s pat = indexOfFrom pat s 0"

definition lastIndexOf :: "string \<Rightarrow> string \<Rightarrow> int" where
  \<comment> \<open>\<open>s.lastIndexOf(pat)\<close>: the position of the last occurrence, or \<open>-1\<close>\<close>
  "lastIndexOf s pat =
     (case filter (\<lambda>k. prefix pat (drop k s)) (rev [0..<Suc (length s)]) of
        [] \<Rightarrow> - 1
      | k # _ \<Rightarrow> int k)"

definition substr :: "string \<Rightarrow> int \<Rightarrow> nat \<Rightarrow> string" where
  \<comment> \<open>\<open>s.substr(start, len)\<close>; a negative start counts from the end\<close>
  "substr s start len =
     (let b = (if start < 0 then nat (max 0 (int (length s) + start)) else nat start)
      in take len (drop b s))"

section \<open>External collaborators\<close>

text \<open>
  The IP-literal test, the IDN encoder and the public-suffix oracle are imported by the
  engine from modules it does not define; they are parameters of the model.
  \<open>getPublicSuffix\<close> answers \<open>None\<close> for a domain that is itself a public suffix.
\<close>

record collab =
  isIP :: "string \<Rightarrow> bool"
  toASCII :: "string \<Rightarrow> string"
  getPublicSuffix :: "string \<Rightarrow> string option"

section \<open>Canonicalisation and matching\<close>

definition stripLeadingDot :: "string \<Rightarrow> string" where
  \<comment> \<open>\<open>str.replace(/^\./, '')\<close>\<close>
  "stripLeadingDot s = (case s of c # cs \<Rightarrow> if c = CHR ''.'' then cs else s | [] \<Rightarrow> [])"

definition canonicalDomainStr :: "collab \<Rightarrow> string \<Rightarrow> string" where
  "canonicalDomainStr x s =
     (let str = stripLeadingDot (trim s);
          str' = (if list_ex (\<lambda>c. \<not> (1 \<le> code c \<and> code c \<le> 127)) str
                  then toASCII x str else str)
      in toLowerCase str')"

definition canonicalDomain :: "collab \<Rightarrow> string option \<Rightarrow> string option" where
  "canonicalDomain x str = (case str of None \<Rightarrow> None | Some s \<Rightarrow> Some (canonicalDomainStr x s))"

definition domainMatchStr :: "collab \<Rightarrow> string \<Rightarrow> string \<Rightarrow> bool" where
  \<comment> \<open>the body of \<open>domainMatch\<close> after the null test and the optional canonicalisation\<close>
  "domainMatchStr x str domStr =
     (if str = domStr then True
      else if isIP x str then False
      else let idx = indexOf str domStr in
        if idx \<le> 0 then False
        else if int (length str) \<noteq> int (length domStr) + idx then False
        else if substr str (idx - 1) 1 \<noteq> ''.'' then False
        else True)"

fun domainMatch :: "collab \<Rightarrow> string option \<Rightarrow> string option \<Rightarrow> bool \<Rightarrow> bool option" where
  "domainMatch x None domStr canonicalize = None"
| "domainMatch x (Some str) None canonicalize = None"
| "domainMatch x (Some str) (Some domStr) canonicalize =
     (if canonicalize
      then Some (domainMatchStr x (canonicalDomainStr x str) (canonicalDomainStr x domStr))
      else Some (domainMatchStr x str domStr))"

definition defaultPath :: "string option \<Rightarrow> string" where
  "defaultPath path =
     (case path of
        None \<Rightarrow> ''/''
      | Some p \<Rightarrow>
          if p = [] \<or> substr p 0 1 \<noteq> ''/'' then ''/''
          else if p = ''/'' then p
          else let rightSlash = lastIndexOf p ''/'' in
            if rightSlash = 0 then ''/''
            else take (nat rightSlash) p)"

section \<open>Dates\<close>

text \<open>
  A \<open>Date\<close> is its time value: the milliseconds since 1970-01-01T00:00:00Z. \<open>Date.UTC\<close>
  and the \<open>getUTC...\<close> accessors are the language's own; they are written out here with
  the usual day-number arithmetic of the proleptic Gregorian calendar.
\<close>

type_synonym date = int

definition daysFromCivil :: "int \<Rightarrow> int \<Rightarrow> int \<Rightarrow> int" where
  \<comment> \<open>day number of year \<open>y\<close>, month \<open>m\<close> (1 to 12), day \<open>d\<close>; day 0 is 1970-01-01\<close>
  "daysFromCivil y m d =
     (let y' = (if m \<le> 2 then y - 1 else y);
          era = y' div 400;
          yoe = y' - era * 400;
          doy = (153 * (if m > 2 then m - 3 else m + 9) + 2) div 5 + d - 1;
          doe = yoe * 365 + yoe div 4 - yoe div 100 + doy
      in era * 146097 + doe - 719468)"

definition civilFromDays :: "int \<Rightarrow> int \<times> int \<times> int" where
  \<comment> \<open>year, month (1 to 12) and day of the month of a day number\<close>
  "civilFromDays z0 =
     (let z = z0 + 719468;
          era = z div 146097;
          doe = z - era * 146097;
          yoe = (doe - doe div 1460 + doe div 36524 - doe div 146096) div 365;
          doy = doe - (365 * yoe + yoe div 4 - yoe div 100);
          mp = (5 * doy + 2) div 153;
          d = doy - (153 * mp + 2) div 5 + 1;
          m = (if mp < 10 then mp + 3 else mp - 9);
          y = yoe + era * 400 + (if m \<le> 2 then 1 else 0)
      in (y, m, d))"

definition DateUTC :: "int \<Rightarrow> int \<Rightarrow> int \<Rightarrow> int \<Rightarrow> int \<Rightarrow> int \<Rightarrow> date" where
  \<comment> \<open>\<open>Date.UTC(year, month, day, hours, minutes, seconds)\<close>, month counted from 0\<close>
  "DateUTC y mo d h mi s =
     (let yr = (if 0 \<le> y \<and> y \<le> 99 then 1900 + y else y);
          day = daysFromCivil (yr + mo div 12) (mo mod 12 + 1) 1 + d - 1
      in day * 86400000 + h * 3600000 + mi * 60000 + s * 1000)"

definition getUTCFullYear :: "date \<Rightarrow> int" where
  "getUTCFullYear t = fst (civilFromDays (t div 86400000))"

definition getUTCMonth :: "date \<Rightarrow> int" where
  "getUTCMonth t = fst (snd (civilFromDays (t div 86400000))) - 1"

definition getUTCDate :: "date \<Rightarrow> int" where
  "getUTCDate t = snd (snd (civilFromDays (t div 86400000)))"

definition getUTCDay :: "date \<Rightarrow> int" where
  "getUTCDay t = (t div 86400000 + 4) mod 7"

definition getUTCHours :: "date \<Rightarrow> int" where
  "getUTCHours t = (t mod 86400000) div 3600000"

definition getUTCMinutes :: "date \<Rightarrow> int" where
  "getUTCMinutes t = (t mod 3600000) div 60000"

definition getUTCSeconds :: "date \<Rightarrow> int" where
  "getUTCSeconds t = (t mod 60000) div 1000"

definition isDigit :: "char \<Rightarrow> bool" where
  "isDigit c = (48 \<le> code c \<and> code c \<le> 57)"

definition digitChar :: "nat \<Rightarrow> char" where
  "digitChar n = ''0123456789'' ! n"

fun showNat :: "nat \<Rightarrow> string" where
  "showNat n = (if n < 10 then [digitChar n] else showNat (n div 10) @ [digitChar (n mod 10)])"

definition showInt :: "int \<Rightarrow> string" where
  \<comment> \<open>a number spliced into a template literal\<close>
  "showInt i = (if i < 0 then CHR ''-'' # showNat (nat (- i)) else showNat (nat i))"

definition parseInt :: "string \<Rightarrow> int" where
  \<comment> \<open>\<open>parseInt(s, 10)\<close> on a string that begins with a digit: its leading digits\<close>
  "parseInt s = foldl (\<lambda>acc c. 10 * acc + (int (code c) - 48)) 0 (takeWhile isDigit s)"

definition isDateDelim :: "char \<Rightarrow> bool" where
  \<comment> \<open>\<open>DATE_DELIM\<close>\<close>
  "isDateDelim c =
     (let n = code c in
        n = 9 \<or> (32 \<le> n \<and> n \<le> 47) \<or> (59 \<le> n \<and> n \<le> 64)
        \<or> (91 \<le> n \<and> n \<le> 96) \<or> (123 \<le> n \<and> n \<le> 126))"

fun splitOn :: "(char \<Rightarrow> bool) \<Rightarrow> string \<Rightarrow> string list" where
  \<comment> \<open>\<open>str.split(re)\<close> for a one-character class \<open>re\<close>\<close>
  "splitOn P [] = [[]]"
| "splitOn P (c # cs) =
     (if P c then [] # splitOn P cs
      else (case splitOn P cs of t # ts \<Rightarrow> (c # t) # ts | [] \<Rightarrow> [[c]]))"

definition digitRun :: "string \<Rightarrow> bool" where
  \<comment> \<open>\<open>\d{1,2}\<close> against a maximal run of digits\<close>
  "digitRun ds = (length ds = 1 \<or> length ds = 2)"

definition colonRun :: "string \<Rightarrow> bool" where
  \<comment> \<open>\<open>[^\d]*:\<close> against a maximal run of non-digits that a digit follows\<close>
  "colonRun ns = (ns \<noteq> [] \<and> last ns = CHR '':'')"

definition matchTIME :: "string \<Rightarrow> (string \<times> string \<times> string) option" where
  \<comment> \<open>\<open>TIME.exec(token)\<close>: the three captured groups\<close>
  "matchTIME token =
     (let d1 = takeWhile isDigit token; r1 = dropWhile isDigit token;
          n1 = takeWhile (\<lambda>c. \<not> isDigit c) r1; r2 = dropWhile (\<lambda>c. \<not> isDigit c) r1;
          d2 = takeWhile isDigit r2; r3 = dropWhile isDigit r2;
          n2 = takeWhile (\<lambda>c. \<not> isDigit c) r3; r4 = dropWhile (\<lambda>c. \<not> isDigit c) r3;
          d3 = takeWhile isDigit r4; r5 = dropWhile isDigit r4
      in if digitRun d1 \<and> colonRun n1 \<and> digitRun d2 \<and> colonRun n2 \<and> digitRun d3
            \<and> list_all (\<lambda>c. \<not> isDigit c) r5
         then Some (d1, d2, d3) else None)"

definition matchDAY_OF_MONTH :: "string \<Rightarrow> string option" where
  \<comment> \<open>\<open>DAY_OF_MONTH.exec(token)\<close>: the captured group\<close>
  "matchDAY_OF_MONTH token =
     (let d1 = takeWhile isDigit token; r1 = dropWhile isDigit token
      in if digitRun d1 \<and> list_all (\<lambda>c. \<not> isDigit c) r1 then Some d1 else None)"

definition MONTH_TO_NUM :: "(string \<times> int) list" where
  "MONTH_TO_NUM =
     [(''jan'', 0), (''feb'', 1), (''mar'', 2), (''apr'', 3), (''may'', 4), (''jun'', 5),
      (''jul'', 6), (''aug'', 7), (''sep'', 8), (''oct'', 9), (''nov'', 10), (''dec'', 11)]"

definition NUM_TO_MONTH :: "string list" where
  "NUM_TO_MONTH = [''Jan'', ''Feb'', ''Mar'', ''Apr'', ''May'', ''Jun'',
                   ''Jul'', ''Aug'', ''Sep'', ''Oct'', ''Nov'', ''Dec'']"

definition NUM_TO_DAY :: "string list" where
  "NUM_TO_DAY = [''Sun'', ''Mon'', ''Tue'', ''Wed'', ''Thu'', ''Fri'', ''Sat'']"

definition matchMONTH :: "string \<Rightarrow> int option" where
  \<comment> \<open>\<open>MONTH.exec(token)\<close> followed by the \<open>MONTH_TO_NUM\<close> lookup of the lower-cased group\<close>
  "matchMONTH token = map_of MONTH_TO_NUM (toLowerCase (take 3 token))"

definition matchYEAR :: "string \<Rightarrow> string option" where
  \<comment> \<open>\<open>YEAR.exec(token)\<close>: the whole match\<close>
  "matchYEAR token =
     (if list_all isDigit token \<and> (length token = 2 \<or> length token = 4)
      then Some token else None)"

record dateFields =
  hour :: "int option"
  minutes :: "int option"
  seconds :: "int option"
  day :: "int option"
  month :: "int option"
  year :: "int option"

definition noFields :: dateFields where
  "noFields = \<lparr> hour = None, minutes = None, seconds = None,
                day = None, month = None, year = None \<rparr>"

definition yearValue :: "string \<Rightarrow> int" where
  \<comment> \<open>the year-value of a matched token after the two-digit adjustment\<close>
  "yearValue tok =
     (let y = parseInt tok in
        if y \<ge> 70 \<and> y \<le> 99 then y + 1900
        else if y \<ge> 0 \<and> y \<le> 69 then y + 2000
        else y)"

definition dateToken :: "dateFields \<Rightarrow> string \<Rightarrow> dateFields option" where
  \<comment> \<open>one round of the token loop of \<open>parseDate\<close>; \<open>None\<close> is its \<open>return;\<close>\<close>
  "dateToken st tok =
     (let token = trim tok in
      if token = [] then Some st
      else case (if seconds st = None then matchTIME token else None) of
        Some (h, m, s) \<Rightarrow>
          if parseInt h > 23 \<or> parseInt m > 59 \<or> parseInt s > 59 then None
          else Some (st\<lparr>hour := Some (parseInt h), minutes := Some (parseInt m),
                        seconds := Some (parseInt s)\<rparr>)
      | None \<Rightarrow>
      (case (if day st = None then matchDAY_OF_MONTH token else None) of
        Some d \<Rightarrow>
          \<comment> \<open>\<open>parseInt(result, 10)\<close> reads the match array as the text \<open>token,group\<close>\<close>
          let dayValue = parseInt (token @ '','' @ d) in
          if dayValue < 1 \<or> dayValue > 31 then None
          else Some (st\<lparr>day := Some dayValue\<rparr>)
      | None \<Rightarrow>
      (case (if month st = None then matchMONTH token else None) of
        Some mo \<Rightarrow> Some (st\<lparr>month := Some mo\<rparr>)
      | None \<Rightarrow>
      (case (if year st = None then matchYEAR token else None) of
        Some y \<Rightarrow>
          if yearValue y < 1601 then None
          else Some (st\<lparr>year := Some (yearValue y)\<rparr>)
      | None \<Rightarrow> Some st))))"

fun dateTokens :: "dateFields \<Rightarrow> string list \<Rightarrow> dateFields option" where
  "dateTokens st [] = Some st"
| "dateTokens st (tok # toks) =
     (case dateToken st tok of None \<Rightarrow> None | Some st' \<Rightarrow> dateTokens st' toks)"

definition orZero :: "int option \<Rightarrow> int" where
  \<comment> \<open>the number a possibly null argument of \<open>Date.UTC\<close> is coerced to\<close>
  "orZero v = (case v of None \<Rightarrow> 0 | Some n \<Rightarrow> n)"

definition parseDate :: "string \<Rightarrow> date option" where
  "parseDate str =
     (if str = [] then None
      else case dateTokens noFields (splitOn isDateDelim str) of
        None \<Rightarrow> None
      | Some st \<Rightarrow>
          (case (seconds st, day st, month st, year st) of
             (Some s, Some d, Some mo, Some y) \<Rightarrow>
               Some (DateUTC y mo d (orZero (hour st)) (orZero (minutes st)) s)
           | _ \<Rightarrow> None))"

definition pad2 :: "int \<Rightarrow> string" where
  \<comment> \<open>\<open>n >= 10 ? n : `0${n}`\<close>, spliced into the template\<close>
  "pad2 n = (if n \<ge> 10 then showInt n else CHR ''0'' # showInt n)"

definition formatDate :: "date \<Rightarrow> string" where
  \<comment> \<open>the template literal runs over two source lines: a line feed and four blanks
      stand between the year and the hours\<close>
  "formatDate d =
     NUM_TO_DAY ! nat (getUTCDay d) @ '', '' @ pad2 (getUTCDate d) @ '' ''
       @ NUM_TO_MONTH ! nat (getUTCMonth d) @ '' '' @ showInt (getUTCFullYear d)
       @ [CHR 0x0A] @ ''    ''
       @ pad2 (getUTCHours d) @ '':'' @ pad2 (getUTCMinutes d) @ '':''
       @ pad2 (getUTCSeconds d) @ '' GMT''"

definition inRange :: "int \<Rightarrow> int \<Rightarrow> int option \<Rightarrow> bool" where
  "inRange lo hi v = (case v of None \<Rightarrow> True | Some n \<Rightarrow> lo \<le> n \<and> n \<le> hi)"

definition fieldsOK :: "dateFields \<Rightarrow> bool" where
  \<comment> \<open>the invariant of the token loop: every field that is set is in its range\<close>
  "fieldsOK st =
     (inRange 0 23 (hour st) \<and> inRange 0 59 (minutes st) \<and> inRange 0 59 (seconds st)
      \<and> inRange 1 31 (day st) \<and> inRange 0 11 (month st)
      \<and> (case year st of None \<Rightarrow> True | Some y \<Rightarrow> 1601 \<le> y)
      \<and> (seconds st = None \<or> (hour st \<noteq> None \<and> minutes st \<noteq> None)))"

section \<open>Cookies\<close>

text \<open>
  Numbers are integers or one of the two infinities. For \<open>maxAge\<close> the infinities are the
  sentinels that \<open>setMaxAge\<close> stores as the texts \<open>Infinity\<close> and \<open>-Infinity\<close>; they read
  as numbers wherever the engine compares them.
\<close>

datatype num = NegInfinity | Finite int | Infinity

fun num_le :: "num \<Rightarrow> num \<Rightarrow> bool" where
  "num_le NegInfinity b = True"
| "num_le (Finite a) NegInfinity = False"
| "num_le (Finite a) (Finite b) = (a \<le> b)"
| "num_le (Finite a) Infinity = True"
| "num_le Infinity Infinity = True"
| "num_le Infinity b = False"

fun num_add :: "int \<Rightarrow> num \<Rightarrow> num" where
  \<comment> \<open>a finite number plus a number\<close>
  "num_add a NegInfinity = NegInfinity"
| "num_add a (Finite b) = Finite (a + b)"
| "num_add a Infinity = Infinity"

fun num_times1000 :: "num \<Rightarrow> num" where
  "num_times1000 NegInfinity = NegInfinity"
| "num_times1000 (Finite a) = Finite (a * 1000)"
| "num_times1000 Infinity = Infinity"

text \<open>
  \<open>expires\<close> holds the sentinel (the text \<open>Infinity\<close> of the prototype, which
  \<open>setExpires\<close> and \<open>fromJSON\<close> assign too, or whatever else compares equal to the
  number \<open>Infinity\<close>), a \<open>Date\<close>, or some other text a caller assigned to the field.
  The null that \<open>fromJSON\<close> may leave there behaves as the empty text in all that follows:
  it does not parse as a date, and it has no \<open>getTime\<close>.
\<close>

datatype expiry = ExpInfinity | ExpDate date | ExpString string

text \<open>
  \<open>creation\<close> holds null, a \<open>Date\<close>, or a text: \<open>fromJSON\<close> keeps the text
  \<open>Infinity\<close> there, and a caller may assign any. A text is no \<open>Date\<close>: a call of
  \<open>getTime\<close> on it throws. The empty text is falsy, like null. Any other value that
  is not a \<open>Date\<close> behaves as one of the two kinds of text does.
\<close>

datatype stamp = DateValue date | TextValue string

text \<open>The field \<open>cvalue\<close> is the cookie's \<open>value\<close>.\<close>

record cookie =
  key :: string
  cvalue :: string
  expires :: expiry
  maxAge :: "num option"
  domain :: "string option"
  path :: "string option"
  secure :: bool
  httpOnly :: bool
  extensions :: "string list option"
  hostOnly :: "bool option"
  pathIsDefault :: "bool option"
  creation :: "stamp option"
  lastAccessed :: "date option"
  creationIndex :: nat

definition prototype :: cookie where
  \<comment> \<open>\<open>Cookie.prototype\<close>: the value of every field that was never assigned\<close>
  "prototype = \<lparr> key = [], cvalue = [], expires = ExpInfinity, maxAge = None, domain = None,
      path = None, secure = False, httpOnly = False, extensions = None, hostOnly = None,
      pathIsDefault = None, creation = None, lastAccessed = None, creationIndex = 0 \<rparr>"

definition truthy :: "string option \<Rightarrow> bool" where
  \<comment> \<open>a text or null used as a condition\<close>
  "truthy v = (case v of None \<Rightarrow> False | Some s \<Rightarrow> s \<noteq> [])"

definition isCookieOctet :: "char \<Rightarrow> bool" where
  \<comment> \<open>\<open>COOKIE_OCTET\<close>\<close>
  "isCookieOctet c =
     (let n = code c in
        n = 33 \<or> (35 \<le> n \<and> n \<le> 43) \<or> (45 \<le> n \<and> n \<le> 58)
        \<or> (60 \<le> n \<and> n \<le> 91) \<or> (93 \<le> n \<and> n \<le> 126))"

definition COOKIE_OCTETS :: "string \<Rightarrow> bool" where
  \<comment> \<open>\<open>COOKIE_OCTETS.test(s)\<close>: one or more cookie octets, anchored at both ends\<close>
  "COOKIE_OCTETS s = (s \<noteq> [] \<and> list_all isCookieOctet s)"

definition isControlChar :: "char \<Rightarrow> bool" where
  "isControlChar c = (code c \<le> 31)"

definition CONTROL_CHARS :: "string \<Rightarrow> bool" where
  \<comment> \<open>\<open>CONTROL_CHARS.test(s)\<close>\<close>
  "CONTROL_CHARS s = list_ex isControlChar s"

definition isPathChar :: "char \<Rightarrow> bool" where
  "isPathChar c = (let n = code c in (32 \<le> n \<and> n \<le> 58) \<or> (60 \<le> n \<and> n \<le> 126))"

definition PATH_VALUE :: "string \<Rightarrow> bool" where
  \<comment> \<open>\<open>PATH_VALUE.test(s)\<close>: the expression has no anchors, so one character of the
      class anywhere in \<open>s\<close> makes it match\<close>
  "PATH_VALUE s = list_ex isPathChar s"

definition cdomain :: "collab \<Rightarrow> cookie \<Rightarrow> string option" where
  "cdomain x c = (case domain c of None \<Rightarrow> None | Some d \<Rightarrow> canonicalDomain x (Some d))"

definition validate :: "collab \<Rightarrow> cookie \<Rightarrow> bool" where
  "validate x c =
     (if \<not> COOKIE_OCTETS (cvalue c) then False
      else if (case expires c of
                 ExpInfinity \<Rightarrow> False
               | ExpDate d \<Rightarrow> False
               | ExpString s \<Rightarrow> parseDate s = None) then False
      else if (case maxAge c of None \<Rightarrow> False | Some a \<Rightarrow> num_le a (Finite 0)) then False
      else if (case path c of None \<Rightarrow> False | Some p \<Rightarrow> \<not> PATH_VALUE p) then False
      else if truthy (cdomain x c) then
        (case cdomain x c of
           None \<Rightarrow> True
         | Some cd \<Rightarrow>
             if last cd = CHR ''.'' then False
             else if getPublicSuffix x cd = None then False
             else True)
      else True)"

definition setExpires :: "cookie \<Rightarrow> expiry \<Rightarrow> cookie" where
  "setExpires c exp =
     (case exp of
        ExpDate d \<Rightarrow> c\<lparr>expires := ExpDate d\<rparr>
      | ExpInfinity \<Rightarrow> c\<lparr>expires := ExpInfinity\<rparr>
      | ExpString s \<Rightarrow>
          (case parseDate s of
             Some d \<Rightarrow> c\<lparr>expires := ExpDate d\<rparr>
           | None \<Rightarrow> c\<lparr>expires := ExpInfinity\<rparr>))"

definition setMaxAge :: "cookie \<Rightarrow> num \<Rightarrow> cookie" where
  "setMaxAge c age = c\<lparr>maxAge := Some age\<rparr>"

datatype exn = TypeError

definition expiryTime :: "cookie \<Rightarrow> date option \<Rightarrow> date \<Rightarrow> exn + num" where
  \<comment> \<open>\<open>cookie.expiryTime(now)\<close> at clock reading \<open>clock\<close>. With \<open>maxAge\<close> set it
      calls \<open>getTime\<close> on \<open>now || this.creation || new Date()\<close>, otherwise on \<open>expires\<close>;
      the call throws where that is a text (the empty text is falsy and is passed over)\<close>
  "expiryTime c now clock =
     (case maxAge c of
        Some a \<Rightarrow>
          let age = (if num_le a (Finite 0) then NegInfinity else num_times1000 a)
          in (case now of
                Some t \<Rightarrow> Inr (num_add t age)
              | None \<Rightarrow>
                  (case creation c of
                     None \<Rightarrow> Inr (num_add clock age)
                   | Some (DateValue t) \<Rightarrow> Inr (num_add t age)
                   | Some (TextValue s) \<Rightarrow>
                       if s = [] then Inr (num_add clock age) else Inl TypeError))
      | None \<Rightarrow>
          (case expires c of
             ExpInfinity \<Rightarrow> Inr Infinity
           | ExpDate d \<Rightarrow> Inr (Finite d)
           | ExpString s \<Rightarrow> Inl TypeError))"

section \<open>The Set-Cookie parser\<close>

definition isPairStop :: "char \<Rightarrow> bool" where
  "isPairStop c = (c = CHR ''='' \<or> c = CHR '';'')"

definition isLineEnd :: "char \<Rightarrow> bool" where
  \<comment> \<open>what \<open>[^\n\r\0]\<close> excludes\<close>
  "isLineEnd c = (code c = 10 \<or> code c = 13 \<or> code c = 0)"

definition valueRun :: "string \<Rightarrow> string" where
  \<comment> \<open>\<open>\s*([^\n\r\0]*)\<close>: the third group\<close>
  "valueRun s = takeWhile (\<lambda>c. \<not> isLineEnd c) (dropWhile isWhiteSpace s)"

definition matchCOOKIE_PAIR :: "string \<Rightarrow> (string \<times> string \<times> string) option" where
  \<comment> \<open>\<open>COOKIE_PAIR.exec(s)\<close>: groups 1, 2 and 3\<close>
  "matchCOOKIE_PAIR s =
     (let k = takeWhile (\<lambda>c. \<not> isPairStop c) s; r = dropWhile (\<lambda>c. \<not> isPairStop c) s
      in if k = [] then None
         else (case r of
                 c # v \<Rightarrow> if c = CHR ''='' then Some (k, k, valueRun v) else None
               | [] \<Rightarrow> None))"

definition looseKey :: "string \<Rightarrow> (string \<times> string) option" where
  \<comment> \<open>\<open>([^=;]*)\s*=\<close> at the start of \<open>s\<close>: the group and what follows the sign\<close>
  "looseKey s =
     (let k = takeWhile (\<lambda>c. \<not> isPairStop c) s; r = dropWhile (\<lambda>c. \<not> isPairStop c) s
      in case r of
           c # v \<Rightarrow> if c = CHR ''='' then Some (k, v) else None
         | [] \<Rightarrow> None)"

definition matchLOOSE_COOKIE_PAIR :: "string \<Rightarrow> (string \<times> string \<times> string) option" where
  \<comment> \<open>\<open>LOOSE_COOKIE_PAIR.exec(s)\<close>: groups 1, 2 and 3; it always matches, and group 1
      is the empty text here when it took no part\<close>
  "matchLOOSE_COOKIE_PAIR s =
     (let afterSign =
            (case s of
               c # t \<Rightarrow> if c = CHR ''='' then
                           (case looseKey t of
                              Some (k, v) \<Rightarrow> Some (CHR ''='' # k @ ''='', k, v)
                            | None \<Rightarrow> None)
                         else None
             | [] \<Rightarrow> None);
          atStart = (case looseKey s of Some (k, v) \<Rightarrow> Some (k @ ''='', k, v) | None \<Rightarrow> None)
      in case (case afterSign of Some g \<Rightarrow> Some g | None \<Rightarrow> atStart) of
           Some (g1, k, v) \<Rightarrow> Some (g1, k, valueRun v)
         | None \<Rightarrow> Some ([], [], takeWhile (\<lambda>c. \<not> isLineEnd c) s))"

definition parseSigned :: "string \<Rightarrow> int" where
  \<comment> \<open>\<open>parseInt(s, 10)\<close> on a match of \<open>-?[0-9]+\<close>\<close>
  "parseSigned s = (case s of c # t \<Rightarrow> if c = CHR ''-'' then - parseInt t else parseInt s | [] \<Rightarrow> 0)"

definition isMaxAgeText :: "string \<Rightarrow> bool" where
  \<comment> \<open>\<open>/^-?[0-9]+$/.test(s)\<close>\<close>
  "isMaxAgeText s =
     (let ds = (case s of c # t \<Rightarrow> if c = CHR ''-'' then t else s | [] \<Rightarrow> [])
      in ds \<noteq> [] \<and> list_all isDigit ds)"

definition cookieAv :: "cookie \<Rightarrow> string \<Rightarrow> cookie" where
  \<comment> \<open>one round of the attribute loop of \<open>parse\<close>\<close>
  "cookieAv cookie av0 =
     (let av = trim av0 in
      if av = [] then cookie
      else
        let avSep = indexOf av ''='';
            avKey0 = (if avSep = - 1 then av else take (nat avSep) av);
            avValue0 = (if avSep = - 1 then None else Some (drop (nat avSep + 1) av));
            avKey = toLowerCase (trim avKey0);
            avValue = (if truthy avValue0 then map_option trim avValue0 else avValue0)
        in
          if avKey = ''expires'' then
            (case (if truthy avValue then avValue else None) of
               Some v \<Rightarrow> (case parseDate v of
                            Some exp \<Rightarrow> cookie\<lparr>expires := ExpDate exp\<rparr>
                          | None \<Rightarrow> cookie)
             | None \<Rightarrow> cookie)
          else if avKey = ''max-age'' then
            (case (if truthy avValue then avValue else None) of
               Some v \<Rightarrow> if isMaxAgeText v then setMaxAge cookie (Finite (parseSigned v))
                         else cookie
             | None \<Rightarrow> cookie)
          else if avKey = ''domain'' then
            (case (if truthy avValue then avValue else None) of
               Some v \<Rightarrow>
                 let d = stripLeadingDot (trim v) in
                 if d \<noteq> [] then cookie\<lparr>domain := Some (toLowerCase d)\<rparr> else cookie
             | None \<Rightarrow> cookie)
          else if avKey = ''path'' then
            cookie\<lparr>path := (case (if truthy avValue then avValue else None) of
                               Some v \<Rightarrow> if take 1 v = ''/'' then Some v else None
                             | None \<Rightarrow> None)\<rparr>
          else if avKey = ''secure'' then cookie\<lparr>secure := True\<rparr>
          else if avKey = ''httponly'' then cookie\<lparr>httpOnly := True\<rparr>
          else cookie\<lparr>extensions :=
                 Some ((case extensions cookie of None \<Rightarrow> [] | Some es \<Rightarrow> es) @ [av])\<rparr>)"

definition construct :: "nat \<Rightarrow> date \<Rightarrow> cookie" where
  \<comment> \<open>\<open>new Cookie()\<close> when \<open>Cookie.cookiesCreated\<close> is \<open>n\<close> and the clock reads \<open>clock\<close>\<close>
  "construct n clock =
     prototype\<lparr>creation := Some (DateValue clock), creationIndex := Suc n\<rparr>"

definition parse :: "string \<Rightarrow> bool \<Rightarrow> nat \<Rightarrow> date \<Rightarrow> cookie option \<times> nat" where
  \<comment> \<open>\<open>parse(str, {loose})\<close>; the second component is \<open>Cookie.cookiesCreated\<close> afterwards\<close>
  "parse str0 loose created clock =
     (let str = trim str0;
          firstSemi = indexOf str '';'';
          head = (if firstSemi = - 1 then str else take (nat firstSemi) str);
          result = (if loose then matchLOOSE_COOKIE_PAIR head else matchCOOKIE_PAIR head)
      in case result of
           None \<Rightarrow> (None, created)
         | Some (g1, g2, g3) \<Rightarrow>
             let cookie = (construct created clock)
                            \<lparr>key := (if g1 \<noteq> [] then trim g2 else []), cvalue := trim g3\<rparr>
             in if CONTROL_CHARS (key cookie) \<or> CONTROL_CHARS (cvalue cookie)
                then (None, Suc created)
                else if firstSemi = - 1 then (Some cookie, Suc created)
                else
                  let unparsed = trim (drop (nat firstSemi + 1) str) in
                  if unparsed = [] then (Some cookie, Suc created)
                  else (Some (foldl cookieAv cookie (splitOn (\<lambda>c. c = CHR '';'') unparsed)),
                        Suc created))"

section \<open>The jar\<close>

datatype error =
    ParseError \<comment> \<open>\<open>Cookie failed to parse\<close>\<close>
  | PublicSuffixError \<comment> \<open>\<open>Cookie has domain set to a public suffix\<close>\<close>
  | DomainMismatchError \<comment> \<open>\<open>Cookie not in this host's domain\<close>\<close>
  | HttpOnlyError \<comment> \<open>\<open>Cookie is HttpOnly and this isn't an HTTP API\<close>\<close>
  | OldHttpOnlyError \<comment> \<open>\<open>old Cookie is HttpOnly and this isn't an HTTP API\<close>\<close>
  | StoreError string \<comment> \<open>whatever a store passes to its callback\<close>

text \<open>What a completion \<open>cb\<close> is called with: \<open>cb(err)\<close>, \<open>cb(null)\<close> or \<open>cb(null, result)\<close>.\<close>

datatype 'a completion = CbError error | CbNull | CbResult 'a

record options =
  opt_loose :: "bool option"
  opt_ignoreError :: bool
  opt_now :: "date option"
  opt_http :: "bool option"
  opt_secure :: "bool option"
  opt_expire :: "bool option"
  opt_allPaths :: bool
  opt_sort :: "bool option"

definition noOptions :: options where
  \<comment> \<open>the options object \<open>{}\<close>\<close>
  "noOptions = \<lparr> opt_loose = None, opt_ignoreError = False, opt_now = None, opt_http = None,
       opt_secure = None, opt_expire = None, opt_allPaths = False, opt_sort = None \<rparr>"

text \<open>The result of \<open>getCookieContext(url)\<close>: the parts of the request URL the jar reads.\<close>

record cookieContext =
  hostname :: "string option"
  pathname :: "string option"
  protocol :: "string option"

text \<open>
  Cookie objects live in a heap, so that one object reachable from the caller, from the
  store and from the completion is one address. The address of an object made by
  \<open>new Cookie()\<close> is the value of \<open>Cookie.cookiesCreated\<close> after its construction.
\<close>

type_synonym ref = nat

type_synonym identity = "string option \<times> string option \<times> string"

record jar =
  heap :: "ref \<Rightarrow> cookie"
  cookiesCreated :: nat
  idx :: "(identity \<times> ref) list"
  rejectPublicSuffixes :: bool
  enableLooseMode :: bool

datatype cookieArg = Str string | Obj ref

definition identityOf :: "cookie \<Rightarrow> identity" where
  "identityOf c = (domain c, path c, key c)"

text \<open>
  Modelled from the spec: the in-memory store (its module is not among the sources). It
  is an index from the identity triple to the cookie; \<open>find\<close> answers the cookie at a
  triple or nothing, \<open>put\<close> stores at the cookie's triple, \<open>update\<close> is \<open>put\<close> of the
  new cookie, \<open>remove\<close> deletes at a triple. It is synchronous and never fails; the
  results are sums all the same, since the jar tests each callback's error.
\<close>

definition findCookie :: "jar \<Rightarrow> string option \<Rightarrow> string option \<Rightarrow> string \<Rightarrow> error + ref option" where
  "findCookie j d p k = Inr (map_of (idx j) (d, p, k))"

definition putCookie :: "jar \<Rightarrow> ref \<Rightarrow> error + jar" where
  "putCookie j r =
     (let t = identityOf (heap j r)
      in Inr (j\<lparr>idx := (t, r) # filter (\<lambda>e. fst e \<noteq> t) (idx j)\<rparr>))"

definition updateCookie :: "jar \<Rightarrow> ref \<Rightarrow> ref \<Rightarrow> error + jar" where
  "updateCookie j oldCookie newCookie = putCookie j newCookie"

definition removeCookie :: "jar \<Rightarrow> identity \<Rightarrow> error + jar" where
  "removeCookie j t = Inr (j\<lparr>idx := filter (\<lambda>e. fst e \<noteq> t) (idx j)\<rparr>)"

text \<open>
  Modelled from the spec: \<open>pathMatch\<close> (its module is not among the sources). True iff
  the two paths are equal, or the cookie path is a prefix of the request path and either
  ends in a slash or is followed by one in the request path. A cookie without a path
  matches nothing.
\<close>

definition pathMatch :: "string \<Rightarrow> string option \<Rightarrow> bool" where
  "pathMatch reqPath cookiePath =
     (case cookiePath of
        None \<Rightarrow> False
      | Some cp \<Rightarrow>
          reqPath = cp
          \<or> (prefix cp reqPath
              \<and> ((cp \<noteq> [] \<and> last cp = CHR ''/'') \<or> take 1 (drop (length cp) reqPath) = ''/'')))"

definition obtainCookie :: "jar \<Rightarrow> cookieArg \<Rightarrow> bool \<Rightarrow> date \<Rightarrow> ref option \<times> jar" where
  \<comment> \<open>S5.3 step 1: a \<open>Cookie\<close> is taken as it is, anything else is parsed\<close>
  "obtainCookie j arg loose clock =
     (case arg of
        Obj r \<Rightarrow> (Some r, j)
      | Str str \<Rightarrow>
          (case parse str loose (cookiesCreated j) clock of
             (None, n) \<Rightarrow> (None, j\<lparr>cookiesCreated := n\<rparr>)
           | (Some c, n) \<Rightarrow> (Some n, j\<lparr>heap := (heap j)(n := c), cookiesCreated := n\<rparr>)))"

definition publicSuffixRefused :: "collab \<Rightarrow> jar \<Rightarrow> cookie \<Rightarrow> bool" where
  \<comment> \<open>S5.3 step 5: the jar rejects public suffixes and the oracle has no registrable
      domain for the cookie's canonical domain\<close>
  "publicSuffixRefused x j c =
     (rejectPublicSuffixes j \<and> truthy (domain c)
      \<and> (case cdomain x c of Some d \<Rightarrow> getPublicSuffix x d = None | None \<Rightarrow> False))"

definition hostScope :: "collab \<Rightarrow> string option \<Rightarrow> cookie \<Rightarrow> cookie option" where
  \<comment> \<open>S5.3 step 6; \<open>None\<close> is the domain mismatch\<close>
  "hostScope x host c =
     (if truthy (domain c) then
        (if domainMatch x host (cdomain x c) False \<noteq> Some True then None
         else Some (if hostOnly c = None then c\<lparr>hostOnly := Some False\<rparr> else c))
      else Some (c\<lparr>hostOnly := Some True, domain := host\<rparr>))"

definition pathScope :: "cookieContext \<Rightarrow> cookie \<Rightarrow> cookie" where
  \<comment> \<open>S5.2.4: the default path for a cookie without a path that starts with a slash\<close>
  "pathScope ctx c =
     (if \<not> truthy (path c) \<or> (case path c of Some p \<Rightarrow> take 1 p \<noteq> ''/'' | None \<Rightarrow> True)
      then c\<lparr>path := Some (defaultPath (pathname ctx)), pathIsDefault := Some True\<rparr>
      else c)"

definition setCookie ::
    "collab \<Rightarrow> jar \<Rightarrow> cookieArg \<Rightarrow> cookieContext \<Rightarrow> options \<Rightarrow> date \<Rightarrow> ref completion \<times> jar" where
  \<comment> \<open>\<open>jar.setCookie(cookie, url, options, cb)\<close> at clock reading \<open>clock\<close>: what \<open>cb\<close> is
      called with, and the jar afterwards\<close>
  "setCookie x j0 arg ctx options clock =
     (let host = canonicalDomain x (hostname ctx);
          loose = (case opt_loose options of Some l \<Rightarrow> l | None \<Rightarrow> enableLooseMode j0)
      in case obtainCookie j0 arg loose clock of
        (None, j) \<Rightarrow> (if opt_ignoreError options then CbNull else CbError ParseError, j)
      | (Some r, j) \<Rightarrow>
        let now = (case opt_now options of Some t \<Rightarrow> t | None \<Rightarrow> clock);
            c = heap j r
        in
        if publicSuffixRefused x j c
        then (if opt_ignoreError options then CbNull else CbError PublicSuffixError, j)
        else
        case hostScope x host c of
          None \<Rightarrow> (if opt_ignoreError options then CbNull else CbError DomainMismatchError, j)
        | Some c1 \<Rightarrow>
          let c2 = pathScope ctx c1;
              j2 = j\<lparr>heap := (heap j)(r := c2)\<rparr>
          in
          if opt_http options = Some False \<and> httpOnly c2
          then (if opt_ignoreError options then CbNull else CbError HttpOnlyError, j2)
          else
          case findCookie j2 (domain c2) (path c2) (key c2) of
            Inl e \<Rightarrow> (CbError e, j2)
          | Inr None \<Rightarrow>
              let j3 = j2\<lparr>heap := (heap j2)
                          (r := c2\<lparr>creation := Some (DateValue now),
                                   lastAccessed := Some now\<rparr>)\<rparr>
              in (case putCookie j3 r of
                    Inl e \<Rightarrow> (CbError e, j3)
                  | Inr j4 \<Rightarrow> (CbResult r, j4))
          | Inr (Some oldCookie) \<Rightarrow>
              if opt_http options = Some False \<and> httpOnly (heap j2 oldCookie)
              then (if opt_ignoreError options then CbNull else CbError OldHttpOnlyError, j2)
              else
                let old = heap j2 oldCookie;
                    j3 = j2\<lparr>heap := (heap j2)
                          (r := c2\<lparr>creation := creation old,
                                   creationIndex := creationIndex old,
                                   lastAccessed := Some now\<rparr>)\<rparr>
                in (case updateCookie j3 oldCookie r of
                      Inl e \<Rightarrow> (CbError e, j3)
                    | Inr j4 \<Rightarrow> (CbResult r, j4)))"

datatype verdict = Keep | Drop | Evict

definition matchingCookie ::
    "collab \<Rightarrow> string option \<Rightarrow> string \<Rightarrow> bool \<Rightarrow> bool \<Rightarrow> date \<Rightarrow> bool \<Rightarrow> bool \<Rightarrow> date
       \<Rightarrow> cookie \<Rightarrow> exn + verdict" where
  \<comment> \<open>the filter of \<open>getCookies\<close>: \<open>Keep\<close> is \<open>true\<close>, \<open>Drop\<close> is \<open>false\<close>, \<open>Evict\<close> is
      \<open>false\<close> after a call of the store's \<open>removeCookie\<close>\<close>
  "matchingCookie x host reqPath secureCtx httpCtx now expireCheck allPaths clock cookie =
     (if (if hostOnly cookie = Some True then domain cookie \<noteq> host
          else domainMatch x host (domain cookie) False \<noteq> Some True) then Inr Drop
      else if \<not> allPaths \<and> \<not> pathMatch reqPath (path cookie) then Inr Drop
      else if secure cookie \<and> \<not> secureCtx then Inr Drop
      else if httpOnly cookie \<and> \<not> httpCtx then Inr Drop
      else if expireCheck then
        (case expiryTime cookie None clock of
           Inl e \<Rightarrow> Inl e
         | Inr t \<Rightarrow> if num_le t (Finite now) then Inr Evict else Inr Keep)
      else Inr Keep)"

fun filterCandidates ::
    "(cookie \<Rightarrow> exn + verdict) \<Rightarrow> (ref \<Rightarrow> cookie) \<Rightarrow> ref list \<Rightarrow> (exn + ref list) \<times> identity list" where
  \<comment> \<open>\<open>cookies.filter(matchingCookie)\<close>: the cookies kept, or the exception that ended the
      filter, and the removals requested from the store on the way\<close>
  "filterCandidates f h [] = (Inr [], [])"
| "filterCandidates f h (r # rs) =
     (case f (h r) of
        Inl e \<Rightarrow> (Inl e, [])
      | Inr Keep \<Rightarrow>
          (case filterCandidates f h rs of
             (Inl e, rm) \<Rightarrow> (Inl e, rm)
           | (Inr ks, rm) \<Rightarrow> (Inr (r # ks), rm))
      | Inr Drop \<Rightarrow> filterCandidates f h rs
      | Inr Evict \<Rightarrow>
          (case filterCandidates f h rs of (res, rm) \<Rightarrow> (res, identityOf (h r) # rm)))"

definition MAX_TIME :: int where
  "MAX_TIME = 2147483647000"

definition creationTime :: "cookie \<Rightarrow> exn + int" where
  \<comment> \<open>\<open>obj.creation ? obj.creation.getTime() : MAX_TIME\<close>\<close>
  "creationTime obj =
     (case creation obj of
        None \<Rightarrow> Inr MAX_TIME
      | Some (DateValue t) \<Rightarrow> Inr t
      | Some (TextValue s) \<Rightarrow> if s = [] then Inr MAX_TIME else Inl TypeError)"

definition cookieCompare :: "cookie \<Rightarrow> cookie \<Rightarrow> exn + int" where
  "cookieCompare objA objB =
     (let aPathLen = (case path objA of Some p \<Rightarrow> int (length p) | None \<Rightarrow> 0);
          bPathLen = (case path objB of Some p \<Rightarrow> int (length p) | None \<Rightarrow> 0);
          cmp = bPathLen - aPathLen
      in if cmp \<noteq> 0 then Inr cmp
         else
           (case creationTime objA of
              Inl e \<Rightarrow> Inl e
            | Inr aTime \<Rightarrow>
                (case creationTime objB of
                   Inl e \<Rightarrow> Inl e
                 | Inr bTime \<Rightarrow>
                     let cmp' = aTime - bTime
                     in if cmp' \<noteq> 0 then Inr cmp'
                        else Inr (int (creationIndex objA) - int (creationIndex objB)))))"

fun insertBy :: "('a \<Rightarrow> 'a \<Rightarrow> int) \<Rightarrow> 'a \<Rightarrow> 'a list \<Rightarrow> 'a list" where
  "insertBy cmp a [] = [a]"
| "insertBy cmp a (b # bs) = (if cmp a b \<le> 0 then a # b # bs else b # insertBy cmp a bs)"

definition sortBy :: "('a \<Rightarrow> 'a \<Rightarrow> int) \<Rightarrow> 'a list \<Rightarrow> 'a list" where
  \<comment> \<open>a stable insertion sort: each element goes in front of the later elements it does
      not compare greater than\<close>
  "sortBy cmp xs = foldr (insertBy cmp) xs []"

definition throws :: "exn + 'a \<Rightarrow> bool" where
  "throws r = (case r of Inl e \<Rightarrow> True | Inr v \<Rightarrow> False)"

fun somePairThrows :: "('a \<Rightarrow> 'a \<Rightarrow> exn + int) \<Rightarrow> 'a list \<Rightarrow> bool" where
  "somePairThrows cmp [] = False"
| "somePairThrows cmp (a # bs) =
     (list_ex (\<lambda>b. throws (cmp a b) \<or> throws (cmp b a)) bs \<or> somePairThrows cmp bs)"

definition arraySort :: "('a \<Rightarrow> 'a \<Rightarrow> exn + int) \<Rightarrow> 'a list \<Rightarrow> exn + 'a list" where
  \<comment> \<open>\<open>array.sort(cmp)\<close>. The comparator is called on pairs of elements at different
      places only, so an array of one element is never compared. \<open>cookieCompare\<close> throws
      only on two cookies of one path length, and those end up next to each other, which
      no sort can arrange without comparing such a pair: the sort throws if and only if
      some pair throws\<close>
  "arraySort cmp xs =
     (if somePairThrows cmp xs then Inl TypeError
      else Inr (sortBy (\<lambda>a b. case cmp a b of Inr n \<Rightarrow> n | Inl e \<Rightarrow> 0) xs))"

definition applyRemovals :: "jar \<Rightarrow> identity list \<Rightarrow> jar" where
  \<comment> \<open>the store after the requested removals; whatever a removal reports is ignored\<close>
  "applyRemovals j ts =
     foldl (\<lambda>j' t. case removeCookie j' t of Inl e \<Rightarrow> j' | Inr j'' \<Rightarrow> j'') j ts"

definition touch :: "date \<Rightarrow> (ref \<Rightarrow> cookie) \<Rightarrow> ref list \<Rightarrow> (ref \<Rightarrow> cookie)" where
  \<comment> \<open>S5.4 part 3: \<open>lastAccessed\<close> of every returned cookie\<close>
  "touch currentDate h rs = foldl (\<lambda>h' r. h'(r := (h' r)\<lparr>lastAccessed := Some currentDate\<rparr>)) h rs"

text \<open>
  The options object as \<open>getCookies\<close> reads it. Its \<open>now\<close> is compared as a number, so
  a \<open>Date\<close> and a number both serve; a \<open>Date\<close> is truthy whatever its time, the number
  0 is falsy.
\<close>

datatype timeArg = DateArg date | NumberArg int

record getOptions =
  get_secure :: "bool option"
  get_http :: "bool option"
  get_now :: "timeArg option"
  get_expire :: "bool option"
  get_allPaths :: bool
  get_sort :: "bool option"

definition noGetOptions :: getOptions where
  \<comment> \<open>the options object \<open>{}\<close>\<close>
  "noGetOptions = \<lparr> get_secure = None, get_http = None, get_now = None, get_expire = None,
       get_allPaths = False, get_sort = None \<rparr>"

record getResult =
  outcome :: "exn + ref list completion"
  after :: jar
  removals :: "identity list"

definition getCookies ::
    "collab \<Rightarrow> ((identity \<times> ref) list \<Rightarrow> string option \<Rightarrow> string option \<Rightarrow> error + ref list)
       \<Rightarrow> jar \<Rightarrow> cookieContext \<Rightarrow> getOptions \<Rightarrow> date \<Rightarrow> getResult" where
  \<comment> \<open>\<open>jar.getCookies(url, options, cb)\<close> at clock reading \<open>clock\<close>: what \<open>cb\<close> is called
      with, or the exception that leaves the call; the jar afterwards; and the removals
      requested from the store. The store's \<open>findCookies\<close> is the parameter \<open>fc\<close>: it may
      answer any list of candidates.\<close>
  "getCookies x fc j ctx options clock =
     (let host = canonicalDomain x (hostname ctx);
          reqPath = (case pathname ctx of Some p \<Rightarrow> if p \<noteq> [] then p else ''/'' | None \<Rightarrow> ''/'');
          secureCtx = (case get_secure options of
                         Some b \<Rightarrow> b
                       | None \<Rightarrow> protocol ctx = Some ''https:'' \<or> protocol ctx = Some ''wss:'');
          httpCtx = (case get_http options of Some b \<Rightarrow> b | None \<Rightarrow> True);
          now = (case get_now options of
                   Some (DateArg t) \<Rightarrow> t
                 | Some (NumberArg n) \<Rightarrow> if n \<noteq> 0 then n else clock
                 | None \<Rightarrow> clock);
          expireCheck = (get_expire options \<noteq> Some False);
          allPaths = get_allPaths options
      in case fc (idx j) host (if allPaths then None else Some reqPath) of
           Inl err \<Rightarrow> \<lparr> outcome = Inr (CbError err), after = j, removals = [] \<rparr>
         | Inr cookies \<Rightarrow>
             (case filterCandidates
                     (matchingCookie x host reqPath secureCtx httpCtx now expireCheck allPaths clock)
                     (heap j) cookies of
                (Inl e, rm) \<Rightarrow>
                  \<lparr> outcome = Inl e, after = applyRemovals j rm, removals = rm \<rparr>
              | (Inr kept, rm) \<Rightarrow>
                  let j1 = applyRemovals j rm
                  in (case (if get_sort options \<noteq> Some False
                            then arraySort (\<lambda>a b. cookieCompare (heap j a) (heap j b)) kept
                            else Inr kept) of
                        Inl e \<Rightarrow> \<lparr> outcome = Inl e, after = j1, removals = rm \<rparr>
                      | Inr ordered \<Rightarrow>
                          \<lparr> outcome = Inr (CbResult ordered),
                            after = j1\<lparr>heap := touch clock (heap j1) ordered\<rparr>,
                            removals = rm \<rparr>)))"

section \<open>Vocabulary of the statements\<close>

definition effectiveLoose :: "jar \<Rightarrow> options \<Rightarrow> bool" where
  \<comment> \<open>the \<open>loose\<close> setting in force: the caller's, else the jar's\<close>
  "effectiveLoose j options = (case opt_loose options of Some l \<Rightarrow> l | None \<Rightarrow> enableLooseMode j)"

definition effectiveNow :: "options \<Rightarrow> date \<Rightarrow> date" where
  \<comment> \<open>\<open>options.now || new Date()\<close>\<close>
  "effectiveNow options clock = (case opt_now options of Some t \<Rightarrow> t | None \<Rightarrow> clock)"

definition deliver :: "options \<Rightarrow> error \<Rightarrow> ref completion" where
  \<comment> \<open>how a policy failure reaches the completion: the error, or a null error and no cookie
      under \<open>ignoreError\<close>\<close>
  "deliver options e = (if opt_ignoreError options then CbNull else CbError e)"

definition stored :: "cookie \<Rightarrow> cookie option \<Rightarrow> date \<Rightarrow> cookie" where
  \<comment> \<open>the accepted cookie as it is stored, given the cookie found at its identity\<close>
  "stored c2 old now =
     (case old of
        None \<Rightarrow> c2\<lparr>creation := Some (DateValue now), lastAccessed := Some now\<rparr>
      | Some oc \<Rightarrow> c2\<lparr>creation := creation oc, creationIndex := creationIndex oc,
                      lastAccessed := Some now\<rparr>)"

definition requestPath :: "cookieContext \<Rightarrow> string" where
  \<comment> \<open>\<open>context.pathname || '/'\<close>\<close>
  "requestPath ctx = (case pathname ctx of Some p \<Rightarrow> if p \<noteq> [] then p else ''/'' | None \<Rightarrow> ''/'')"

definition secureContext :: "cookieContext \<Rightarrow> getOptions \<Rightarrow> bool" where
  \<comment> \<open>\<open>options.secure\<close>, or by default whether the scheme is \<open>https:\<close> or \<open>wss:\<close>\<close>
  "secureContext ctx options =
     (case get_secure options of
        Some b \<Rightarrow> b
      | None \<Rightarrow> protocol ctx = Some ''https:'' \<or> protocol ctx = Some ''wss:'')"

definition httpContext :: "getOptions \<Rightarrow> bool" where
  "httpContext options = (case get_http options of Some b \<Rightarrow> b | None \<Rightarrow> True)"

definition requestNow :: "getOptions \<Rightarrow> date \<Rightarrow> date" where
  \<comment> \<open>\<open>options.now || Date.now()\<close>, as a number\<close>
  "requestNow options clock =
     (case get_now options of
        Some (DateArg t) \<Rightarrow> t
      | Some (NumberArg n) \<Rightarrow> if n \<noteq> 0 then n else clock
      | None \<Rightarrow> clock)"

definition hostFilter :: "collab \<Rightarrow> string option \<Rightarrow> cookie \<Rightarrow> bool" where
  \<comment> \<open>host scope: equality for a host-only cookie, domain-match otherwise\<close>
  "hostFilter x host c =
     (if hostOnly c = Some True then domain c = host
      else domainMatch x host (domain c) False = Some True)"

definition pathFilter :: "bool \<Rightarrow> string \<Rightarrow> cookie \<Rightarrow> bool" where
  "pathFilter allPaths reqPath c = (allPaths \<or> pathMatch reqPath (path c))"

definition flagFilter :: "bool \<Rightarrow> bool \<Rightarrow> cookie \<Rightarrow> bool" where
  \<comment> \<open>a secure cookie needs a secure context, an \<open>httpOnly\<close> cookie an HTTP context\<close>
  "flagFilter secureCtx httpCtx c = ((\<not> secure c \<or> secureCtx) \<and> (\<not> httpOnly c \<or> httpCtx))"

definition inScope :: "collab \<Rightarrow> cookieContext \<Rightarrow> getOptions \<Rightarrow> cookie \<Rightarrow> bool" where
  \<comment> \<open>the host, path, secure and \<open>httpOnly\<close> filters of a request\<close>
  "inScope x ctx options c =
     (hostFilter x (canonicalDomain x (hostname ctx)) c
      \<and> pathFilter (get_allPaths options) (requestPath ctx) c
      \<and> flagFilter (secureContext ctx options) (httpContext options) c)"

definition expiryThrows :: "getOptions \<Rightarrow> date \<Rightarrow> cookie \<Rightarrow> bool" where
  \<comment> \<open>expiry checking is on and the cookie's \<open>expiryTime()\<close> throws\<close>
  "expiryThrows options clock c =
     (get_expire options \<noteq> Some False \<and> throws (expiryTime c None clock))"

definition evicted :: "getOptions \<Rightarrow> date \<Rightarrow> cookie \<Rightarrow> bool" where
  \<comment> \<open>expiry checking is on and the cookie's expiry time is at or before \<open>now\<close>\<close>
  "evicted options clock c =
     (get_expire options \<noteq> Some False
      \<and> (case expiryTime c None clock of
            Inr t \<Rightarrow> num_le t (Finite (requestNow options clock))
          | Inl e \<Rightarrow> False))"

definition passes :: "collab \<Rightarrow> cookieContext \<Rightarrow> getOptions \<Rightarrow> date \<Rightarrow> cookie \<Rightarrow> bool" where
  \<comment> \<open>the cookie passes all filters of the request\<close>
  "passes x ctx options clock c = (inScope x ctx options c \<and> \<not> evicted options clock c)"

section \<open>Concrete collaborators and jars\<close>

definition noCollab :: collab where
  \<comment> \<open>collaborators for evaluation: no IP literals, identity encoder, only \<open>com\<close> is a suffix\<close>
  "noCollab = \<lparr> isIP = (\<lambda>s. False), toASCII = (\<lambda>s. s),
                getPublicSuffix = (\<lambda>s. if s = ''com'' then None else Some s) \<rparr>"

definition emptyJar :: jar where
  \<comment> \<open>\<open>new CookieJar()\<close> before any cookie was constructed\<close>
  "emptyJar = \<lparr> heap = (\<lambda>r. prototype), cookiesCreated = 0, idx = [],
                 rejectPublicSuffixes = True, enableLooseMode = False \<rparr>"

definition exampleCom :: cookieContext where
  \<comment> \<open>the context of \<open>http://example.com/\<close>\<close>
  "exampleCom = \<lparr> hostname = Some ''example.com'', pathname = Some ''/'',
                   protocol = Some ''http:'' \<rparr>"

definition allCandidates ::
    "(identity \<times> ref) list \<Rightarrow> string option \<Rightarrow> string option \<Rightarrow> error + ref list" where
  \<comment> \<open>a \<open>findCookies\<close> that answers every stored cookie\<close>
  "allCandidates i h p = Inr (map snd i)"

definition jarA :: jar where
  \<comment> \<open>the empty jar after \<open>a=1\<close> was set from \<open>http://example.com/\<close> at time 50\<close>
  "jarA = snd (setCookie noCollab emptyJar (Str ''a=1'') exampleCom noOptions 50)"

definition jarAB :: jar where
  \<comment> \<open>\<open>jarA\<close> after \<open>a=2\<close> was set from the same URL at time 100\<close>
  "jarAB = snd (setCookie noCollab jarA (Str ''a=2'') exampleCom noOptions 100)"

definition jarObj :: jar where
  \<comment> \<open>a jar and one \<open>Cookie\<close> object \<open>k=v\<close>, constructed at time 10 and not yet stored\<close>
  "jarObj = emptyJar\<lparr>heap := (heap emptyJar)
                (1 := prototype\<lparr>key := ''k'', cvalue := ''v'',
                                creation := Some (DateValue 10),
                                creationIndex := 1\<rparr>),
              cookiesCreated := 1\<rparr>"

definition jarS :: jar where
  \<comment> \<open>the empty jar after a secure cookie that expired in 1970 was set\<close>
  "jarS = snd (setCookie noCollab emptyJar
                 (Str ''s=1; Secure; Expires=Thu, 01 Jan 1970 00:00:00 GMT'')
                 exampleCom noOptions 50)"

definition jarP :: jar where
  \<comment> \<open>the empty jar after \<open>a=1; Path=/x\<close> and then \<open>a=2; Path=/\<close> were set\<close>
  "jarP = snd (setCookie noCollab
                 (snd (setCookie noCollab emptyJar (Str ''a=1; Path=/x'') exampleCom noOptions 50))
                 (Str ''a=2; Path=/'') exampleCom noOptions 60)"

definition jarJ :: jar where
  \<comment> \<open>\<open>jarA\<close> after its cookie got a \<open>maxAge\<close> of 60 and, as \<open>fromJSON\<close> leaves it for a
      record that says so, the text \<open>Infinity\<close> as \<open>creation\<close>\<close>
  "jarJ = jarA\<lparr>heap := (heap jarA)
             (1 := (heap jarA 1)\<lparr>maxAge := Some (Finite 60),
                                 creation := Some (TextValue ''Infinity'')\<rparr>)\<rparr>"

definition jarE :: jar where
  \<comment> \<open>the empty jar after a cookie that expired in 1970 was set\<close>
  "jarE = snd (setCookie noCollab emptyJar
                 (Str ''e=1; Expires=Thu, 01 Jan 1970 00:00:00 GMT'')
                 exampleCom noOptions 50)"

section \<open>Facts about the string helpers\<close>

lemma indexOfFrom_empty: "indexOfFrom [] s k = int k"
  by (cases s) simp_all

lemma indexOfFrom_occurs:
  "indexOfFrom pat s k \<noteq> - 1 \<Longrightarrow>
   \<exists>i. indexOfFrom pat s k = int (k + i) \<and> i \<le> length s \<and> prefix pat (drop i s)"
proof (induction s arbitrary: k)
  case Nil
  then show ?case by (auto split: if_splits)
next
  case (Cons c cs)
  show ?case
  proof (cases "prefix pat (c # cs)")
    case True
    then have "indexOfFrom pat (c # cs) k = int (k + 0) \<and> 0 \<le> length (c # cs)
               \<and> prefix pat (drop 0 (c # cs))"
      by simp
    then show ?thesis by blast
  next
    case False
    with Cons.prems have "indexOfFrom pat cs (Suc k) \<noteq> - 1" by simp
    from Cons.IH [OF this] obtain i where
      i: "indexOfFrom pat cs (Suc k) = int (Suc k + i)" "i \<le> length cs" "prefix pat (drop i cs)"
      by blast
    with False have "indexOfFrom pat (c # cs) k = int (k + Suc i) \<and> Suc i \<le> length (c # cs)
               \<and> prefix pat (drop (Suc i) (c # cs))"
      by simp
    then show ?thesis by blast
  qed
qed

lemma indexOfFrom_first:
  "prefix pat (drop i s) \<Longrightarrow> i \<le> length s \<Longrightarrow> (\<forall>j<i. \<not> prefix pat (drop j s)) \<Longrightarrow>
   indexOfFrom pat s k = int (k + i)"
proof (induction s arbitrary: k i)
  case Nil
  then show ?case by simp
next
  case (Cons c cs)
  show ?case
  proof (cases i)
    case 0
    with Cons.prems show ?thesis by simp
  next
    case (Suc i')
    with Cons.prems have np: "\<not> prefix pat (c # cs)" by force
    have "\<forall>j<i'. \<not> prefix pat (drop j cs)"
    proof (intro allI impI)
      fix j assume "j < i'"
      then have "Suc j < i" using Suc by simp
      with Cons.prems have "\<not> prefix pat (drop (Suc j) (c # cs))" by blast
      then show "\<not> prefix pat (drop j cs)" by simp
    qed
    moreover have "prefix pat (drop i' cs)" "i' \<le> length cs"
      using Cons.prems Suc by simp_all
    ultimately have "indexOfFrom pat cs (Suc k) = int (Suc k + i')"
      using Cons.IH by blast
    with np Suc show ?thesis by simp
  qed
qed

lemma defaultPath_slash: "\<exists>rest. defaultPath uriPath = CHR ''/'' # rest"
proof (cases uriPath)
  case None
  then show ?thesis by (simp add: defaultPath_def)
next
  case (Some p)
  show ?thesis
  proof (cases "p = [] \<or> substr p 0 1 \<noteq> ''/'' \<or> p = ''/'' \<or> lastIndexOf p ''/'' = 0")
    case True
    then show ?thesis using Some by (auto simp: defaultPath_def Let_def)
  next
    case False
    then obtain cs where p: "p = CHR ''/'' # cs"
      by (cases p) (auto simp: substr_def)
    define hits where "hits = filter (\<lambda>k. prefix ''/'' (drop k p)) (rev [0..<Suc (length p)])"
    have "prefix ''/'' (drop 0 p)" using p by simp
    then have "0 \<in> set hits" unfolding hits_def by (simp del: upt_Suc)
    then have "hits \<noteq> []" by force
    then obtain k ks where hits: "hits = k # ks" by (auto simp: neq_Nil_conv)
    then have r: "lastIndexOf p ''/'' = int k"
      unfolding lastIndexOf_def hits_def [symmetric] by simp
    with False have "k \<noteq> 0" by simp
    then obtain k' where "k = Suc k'" by (cases k) auto
    then have "nat (lastIndexOf p ''/'') = Suc k'" using r by simp
    then have "take (nat (lastIndexOf p ''/'')) p = CHR ''/'' # take k' cs"
      using p by simp
    with False Some show ?thesis by (simp add: defaultPath_def Let_def)
  qed
qed

section \<open>Domain matching\<close>

text \<open>
  C6 (as amended). For pre-canonicalised strings \<open>host\<close> and \<open>dm\<close> (the call with
  \<open>canonicalize = false\<close>): \<open>domainMatch\<close> answers true only if the two are equal, or
  \<open>host\<close> is not an IP literal and \<open>dm\<close> is a non-empty proper suffix of \<open>host\<close> whose
  preceding character in \<open>host\<close> is a dot. It answers true whenever the two are equal
  (the empty host and the empty domain included), and whenever the suffix conditions hold
  and \<open>dm\<close> has no earlier occurrence in \<open>host\<close>. For the empty \<open>dm\<close> it answers true
  for the empty host only.
\<close>

theorem domainMatch_characterisation:
  "(domainMatch x (Some host) (Some dm) False = Some True \<longrightarrow>
      host = dm \<or> (\<not> isIP x host \<and> dm \<noteq> [] \<and> (\<exists>pre. host = pre @ ''.'' @ dm)))
   \<and> (host = dm \<longrightarrow> domainMatch x (Some host) (Some dm) False = Some True)
   \<and> (\<not> isIP x host \<and> host = pre @ ''.'' @ dm
        \<and> (\<forall>j\<le>length pre. \<not> prefix dm (drop j host))
      \<longrightarrow> domainMatch x (Some host) (Some dm) False = Some True)
   \<and> (domainMatch x (Some host) (Some []) False = Some True \<longleftrightarrow> host = [])"
proof (intro conjI impI)
  assume m: "domainMatch x (Some host) (Some dm) False = Some True"
  show "host = dm \<or> (\<not> isIP x host \<and> dm \<noteq> [] \<and> (\<exists>pre. host = pre @ ''.'' @ dm))"
  proof (cases "host = dm")
    case True
    then show ?thesis by simp
  next
    case False
    let ?idx = "indexOf host dm"
    from m False have c: "\<not> isIP x host" "0 < ?idx"
      "int (length host) = int (length dm) + ?idx" "substr host (?idx - 1) 1 = ''.''"
      by (auto simp: domainMatchStr_def Let_def split: if_splits)
    from c(2) have "indexOfFrom dm host 0 \<noteq> - 1" by (simp add: indexOf_def)
    from indexOfFrom_occurs [OF this] obtain i where
      i: "?idx = int i" "i \<le> length host" "prefix dm (drop i host)"
      by (auto simp: indexOf_def)
    from c(3) i have "length (drop i host) = length dm" by simp
    moreover from i(3) obtain zs where "drop i host = dm @ zs" by (auto simp: prefix_def)
    ultimately have d: "drop i host = dm" by (cases zs) simp_all
    from c(2) i(1) obtain i' where i': "i = Suc i'" by (cases i) auto
    from c(4) i(1) i' have "take 1 (drop i' host) = ''.''" by (simp add: substr_def)
    then have "drop i' host = CHR ''.'' # tl (drop i' host)"
      by (cases "drop i' host") simp_all
    then have "drop i' host = ''.'' @ dm"
      using d i' by (simp add: drop_Suc tl_drop)
    then have "host = take i' host @ ''.'' @ dm"
      using append_take_drop_id [of i' host] by simp
    moreover have "dm \<noteq> []"
    proof
      assume "dm = []"
      then have "?idx = 0" by (simp add: indexOf_def indexOfFrom_empty)
      with c(2) show False by simp
    qed
    ultimately show ?thesis using c(1) by blast
  qed
next
  assume "host = dm"
  then show "domainMatch x (Some host) (Some dm) False = Some True"
    by (simp add: domainMatchStr_def)
next
  assume a: "\<not> isIP x host \<and> host = pre @ ''.'' @ dm
        \<and> (\<forall>j\<le>length pre. \<not> prefix dm (drop j host))"
  then have h: "host = pre @ ''.'' @ dm" and ip: "\<not> isIP x host"
    and first: "\<forall>j\<le>length pre. \<not> prefix dm (drop j host)"
    by blast+
  let ?i = "Suc (length pre)"
  have dr: "drop ?i host = dm" using h by simp
  have "\<forall>j<?i. \<not> prefix dm (drop j host)"
    using first by (simp add: less_Suc_eq_le)
  moreover have "prefix dm (drop ?i host)" "?i \<le> length host"
    using dr h by simp_all
  ultimately have idx: "indexOf host dm = int ?i"
    unfolding indexOf_def using indexOfFrom_first [of dm ?i host 0] by simp
  have "substr host (int ?i - 1) 1 = ''.''" using h by (simp add: substr_def)
  moreover have "int (length host) = int (length dm) + int ?i" using h by simp
  ultimately show "domainMatch x (Some host) (Some dm) False = Some True"
    using ip idx by (simp add: domainMatchStr_def Let_def)
next
  show "domainMatch x (Some host) (Some []) False = Some True \<longleftrightarrow> host = []"
    by (auto simp: domainMatchStr_def Let_def indexOf_def indexOfFrom_empty)
qed

theorem domainMatch_characterisation_witness:
  "domainMatch noCollab (Some ''foo.example.com'') (Some ''example.com'') False = Some True
   \<and> domainMatch noCollab (Some ''example.com'') (Some ''example.com'') False = Some True
   \<and> domainMatch noCollab (Some ''example.com'') (Some []) False \<noteq> Some True"
proof -
  have first: "\<forall>j\<le>length ''foo''. \<not> prefix ''example.com'' (drop j ''foo.example.com'')"
  proof (intro allI impI)
    fix j :: nat assume "j \<le> length ''foo''"
    then have "j = 0 \<or> j = 1 \<or> j = 2 \<or> j = 3" by (simp; arith)
    then show "\<not> prefix ''example.com'' (drop j ''foo.example.com'')" by auto
  qed
  have ip: "\<not> isIP noCollab ''foo.example.com''" by (simp add: noCollab_def)
  have sp: "''foo.example.com'' = ''foo'' @ ''.'' @ ''example.com''" by simp
  note sub = domainMatch_characterisation
      [of noCollab "''foo.example.com''" "''example.com''" "''foo''"]
  note same = domainMatch_characterisation
      [of noCollab "''example.com''" "''example.com''" "[]"]
  have a: "domainMatch noCollab (Some ''foo.example.com'') (Some ''example.com'') False = Some True"
    by (rule sub [THEN conjunct2, THEN conjunct2, THEN conjunct1, THEN mp,
          OF conjI [OF ip conjI [OF sp first]]])
  have b: "domainMatch noCollab (Some ''example.com'') (Some ''example.com'') False = Some True"
    by (rule same [THEN conjunct2, THEN conjunct1, THEN mp, OF refl])
  have "''example.com'' \<noteq> ([] :: string)" by simp
  with same [THEN conjunct2, THEN conjunct2, THEN conjunct2]
  have c: "domainMatch noCollab (Some ''example.com'') (Some []) False \<noteq> Some True"
    by blast
  from a b c show ?thesis by blast
qed

text \<open>
  C6 (as stated) fails: it has \<open>domainMatch\<close> never true for the empty domain,
  yet the identity test comes first and the empty host matches the empty domain.
\<close>

theorem domainMatch_empty_counterexample:
  "domainMatch noCollab (Some []) (Some []) False = Some True"
  by (simp add: domainMatchStr_def)

text \<open>
  The suffix is located with \<open>indexOf\<close>, the first occurrence: a domain that also occurs
  earlier in the host is not matched, although it is a dot-bounded proper suffix.
\<close>

lemma domainMatch_first_occurrence_only:
  "domainMatch noCollab (Some ''example.com.example.com'') (Some ''example.com'') False
     = Some False"
  by (simp add: domainMatchStr_def noCollab_def indexOf_def)

section \<open>The date parser\<close>

lemma parseInt_acc_nonneg:
  "0 \<le> a \<Longrightarrow> list_all isDigit ds \<Longrightarrow>
   0 \<le> foldl (\<lambda>acc c. 10 * acc + (int (code c) - 48)) a ds"
  by (induction ds arbitrary: a) (auto simp: isDigit_def)

lemma parseInt_acc_bound:
  "a \<ge> 0 \<Longrightarrow> list_all isDigit ds \<Longrightarrow>
   foldl (\<lambda>acc c. 10 * acc + (int (code c) - 48)) a ds < (a + 1) * 10 ^ length ds"
proof (induction ds arbitrary: a)
  case Nil
  then show ?case by simp
next
  case (Cons c ds)
  then have c: "int (code c) - 48 \<le> 9" "0 \<le> int (code c) - 48" by (auto simp: isDigit_def)
  let ?a = "10 * a + (int (code c) - 48)"
  have "0 \<le> ?a" using Cons.prems c by simp
  moreover have "list_all isDigit ds" using Cons.prems by simp
  ultimately have "foldl (\<lambda>acc c. 10 * acc + (int (code c) - 48)) ?a ds < (?a + 1) * 10 ^ length ds"
    by (rule Cons.IH)
  moreover have "(?a + 1) * 10 ^ length ds \<le> ((a + 1) * 10) * 10 ^ length ds"
    using c by (intro mult_right_mono) auto
  ultimately have "foldl (\<lambda>acc c. 10 * acc + (int (code c) - 48)) ?a ds
        < ((a + 1) * 10) * 10 ^ length ds"
    by (rule less_le_trans)
  then show ?case by (simp add: algebra_simps)
qed

lemma takeWhile_all: "list_all P xs \<Longrightarrow> takeWhile P xs = xs"
  by (induction xs) auto

lemma dropWhile_all: "list_all P xs \<Longrightarrow> dropWhile P xs = []"
  by (induction xs) auto

lemma list_all_takeWhile: "list_all P (takeWhile P xs)"
  by (induction xs) auto

lemma parseInt_nonneg: "0 \<le> parseInt s"
  unfolding parseInt_def by (rule parseInt_acc_nonneg) (simp_all add: list_all_takeWhile)

lemma parseInt_two_digits:
  "list_all isDigit s \<Longrightarrow> length s = 2 \<Longrightarrow> parseInt s \<le> 99"
  using parseInt_acc_bound [of 0 s] by (simp add: parseInt_def takeWhile_all)

lemma upper_codes: "list_all (\<lambda>d. 65 \<le> code d) upperLetters"
  by (simp add: code_def upperLetters_def)

lemma lowerChar_digit:
  assumes "isDigit c" shows "lowerChar c = c"
proof -
  have "c \<notin> set upperLetters"
  proof
    assume "c \<in> set upperLetters"
    with upper_codes have "65 \<le> code c" unfolding list_all_iff by blast
    with assms show False by (simp add: isDigit_def)
  qed
  moreover have "length upperLetters = length lowerLetters"
    by (simp add: upperLetters_def lowerLetters_def)
  ultimately have "map_of (zip upperLetters lowerLetters) c = None"
    by (simp add: map_of_zip_is_None)
  then show ?thesis unfolding lowerChar_def by simp
qed

lemma digits_no_MONTH: 
  assumes "list_all isDigit token" shows "matchMONTH token = None"
proof (cases token)
  case Nil
  then show ?thesis by (simp add: matchMONTH_def MONTH_TO_NUM_def toLowerCase_def)
next
  case (Cons c cs)
  with assms have d: "isDigit c" by simp
  then have "lowerChar c = c" by (rule lowerChar_digit)
  moreover from d have "c \<noteq> CHR ''j''" "c \<noteq> CHR ''f''" "c \<noteq> CHR ''m''" "c \<noteq> CHR ''a''"
     "c \<noteq> CHR ''s''" "c \<noteq> CHR ''o''" "c \<noteq> CHR ''n''" "c \<noteq> CHR ''d''"
    by (auto simp: isDigit_def code_def)
  ultimately show ?thesis using Cons
    by (cases cs) (auto simp: matchMONTH_def MONTH_TO_NUM_def toLowerCase_def)
qed

lemma matchMONTH_range: "matchMONTH token = Some mo \<Longrightarrow> 0 \<le> mo \<and> mo \<le> 11"
  by (auto simp: matchMONTH_def MONTH_TO_NUM_def split: if_splits)



lemma matchYEAR_digits:
  "matchYEAR token = Some y \<Longrightarrow> y = token \<and> list_all isDigit token \<and> (length token = 2 \<or> length token = 4)"
  by (auto simp: matchYEAR_def split: if_splits)



lemma digits_no_TIME: "list_all isDigit token \<Longrightarrow> matchTIME token = None"
  by (simp add: matchTIME_def takeWhile_all dropWhile_all colonRun_def Let_def)



lemma four_digits_no_DAY:
  "list_all isDigit token \<Longrightarrow> length token = 4 \<Longrightarrow> matchDAY_OF_MONTH token = None"
  by (simp add: matchDAY_OF_MONTH_def takeWhile_all digitRun_def Let_def)

lemma dateToken_OK:
  assumes ok: "fieldsOK st" and step: "dateToken st tok = Some st'"
  shows "fieldsOK st'"
proof (cases "trim tok = []")
  case True
  with step ok show ?thesis by (simp add: dateToken_def)
next
  case ne: False
  show ?thesis
  proof (cases "if seconds st = None then matchTIME (trim tok) else None")
    case (Some hms)
    obtain h m s where hms: "hms = (h, m, s)" by (cases hms)
    from step ne Some hms have
      "st' = st\<lparr>hour := Some (parseInt h), minutes := Some (parseInt m),
                 seconds := Some (parseInt s)\<rparr>
       \<and> parseInt h \<le> 23 \<and> parseInt m \<le> 59 \<and> parseInt s \<le> 59"
      by (simp add: dateToken_def Let_def split: if_splits)
    with ok parseInt_nonneg [of h] parseInt_nonneg [of m] parseInt_nonneg [of s]
    show ?thesis by (simp add: fieldsOK_def inRange_def)
  next
    case t: None
    show ?thesis
    proof (cases "if day st = None then matchDAY_OF_MONTH (trim tok) else None")
      case (Some d)
      from step ne t Some have
        "st' = st\<lparr>day := Some (parseInt (trim tok @ '','' @ d))\<rparr>
         \<and> 1 \<le> parseInt (trim tok @ '','' @ d) \<and> parseInt (trim tok @ '','' @ d) \<le> 31"
        by (simp add: dateToken_def Let_def split: if_splits)
      with ok show ?thesis by (simp add: fieldsOK_def inRange_def)
    next
      case d: None
      show ?thesis
      proof (cases "if month st = None then matchMONTH (trim tok) else None")
        case (Some mo)
        then have "matchMONTH (trim tok) = Some mo" by (simp split: if_splits)
        from matchMONTH_range [OF this] have "0 \<le> mo \<and> mo \<le> 11" .
        moreover from step ne t d Some have "st' = st\<lparr>month := Some mo\<rparr>"
          by (simp add: dateToken_def Let_def)
        ultimately show ?thesis using ok by (simp add: fieldsOK_def inRange_def)
      next
        case m: None
        show ?thesis
        proof (cases "if year st = None then matchYEAR (trim tok) else None")
          case (Some y)
          from step ne t d m Some have
            "st' = st\<lparr>year := Some (yearValue y)\<rparr> \<and> 1601 \<le> yearValue y"
            by (simp add: dateToken_def Let_def split: if_splits)
          with ok show ?thesis by (simp add: fieldsOK_def inRange_def)
        next
          case None
          with step ne t d m have "st' = st" by (simp add: dateToken_def Let_def)
          with ok show ?thesis by simp
        qed
      qed
    qed
  qed
qed

lemma dateTokens_OK:
  "fieldsOK st \<Longrightarrow> dateTokens st toks = Some st' \<Longrightarrow> fieldsOK st'"
  by (induction toks arbitrary: st) (auto split: option.splits dest: dateToken_OK)

lemma noFields_OK: "fieldsOK noFields"
  by (simp add: fieldsOK_def noFields_def inRange_def)

lemma parseDate_Some:
  assumes "parseDate str = Some d"
  shows "\<exists>y mo dd h mi s. d = DateUTC y mo dd h mi s \<and> 1601 \<le> y \<and> 0 \<le> mo \<and> mo \<le> 11
           \<and> 1 \<le> dd \<and> dd \<le> 31 \<and> 0 \<le> h \<and> h \<le> 23 \<and> 0 \<le> mi \<and> mi \<le> 59
           \<and> 0 \<le> s \<and> s \<le> 59"
proof -
  from assms obtain st s dd mo y where
    st: "dateTokens noFields (splitOn isDateDelim str) = Some st"
    and f: "seconds st = Some s" "day st = Some dd" "month st = Some mo" "year st = Some y"
    and d: "d = DateUTC y mo dd (orZero (hour st)) (orZero (minutes st)) s"
    by (auto simp: parseDate_def split: if_splits option.splits)
  from dateTokens_OK [OF noFields_OK st] have ok: "fieldsOK st" .
  with f obtain h mi where hm: "hour st = Some h" "minutes st = Some mi"
    by (auto simp: fieldsOK_def)
  with ok f have "1601 \<le> y \<and> 0 \<le> mo \<and> mo \<le> 11
           \<and> 1 \<le> dd \<and> dd \<le> 31 \<and> 0 \<le> h \<and> h \<le> 23 \<and> 0 \<le> mi \<and> mi \<le> 59
           \<and> 0 \<le> s \<and> s \<le> 59"
    by (simp add: fieldsOK_def inRange_def)
  moreover from d hm have "d = DateUTC y mo dd h mi s" by (simp add: orZero_def)
  ultimately show ?thesis by blast
qed

lemma yearValue_two_digits:
  assumes "matchYEAR tok = Some y" "length y = 2"
  shows "0 \<le> parseInt y \<and> parseInt y \<le> 99
         \<and> yearValue y = (if 70 \<le> parseInt y then parseInt y + 1900 else parseInt y + 2000)"
proof -
  from matchYEAR_digits [OF assms(1)] have "list_all isDigit y" by simp
  then have "parseInt y \<le> 99" using assms(2) by (rule parseInt_two_digits)
  with parseInt_nonneg [of y] show ?thesis by (simp add: yearValue_def Let_def)
qed

lemma dateToken_year:
  assumes "year st = None" "matchYEAR (trim tok) = Some y" "day st \<noteq> None \<or> length y = 4"
  shows "dateToken st tok =
     (if yearValue y < 1601 then None else Some (st\<lparr>year := Some (yearValue y)\<rparr>))"
proof -
  from matchYEAR_digits [OF assms(2)] have y: "y = trim tok" and dg: "list_all isDigit (trim tok)"
    and len: "length (trim tok) = 2 \<or> length (trim tok) = 4" by simp_all
  from len have ne: "trim tok \<noteq> []" by auto
  have t: "matchTIME (trim tok) = None" using dg by (rule digits_no_TIME)
  have m: "matchMONTH (trim tok) = None" using dg by (rule digits_no_MONTH)
  have d: "(if day st = None then matchDAY_OF_MONTH (trim tok) else None) = None"
    using assms(3) y dg by (auto simp: four_digits_no_DAY)
  show ?thesis
    unfolding dateToken_def Let_def using ne t m d assms(1,2) y by simp
qed

text \<open>
  C7. \<open>parseDate\<close> is a total function into an optional date: every string gets either a
  date or the absent value, and no step of it can throw. A date it returns is
  \<open>Date.UTC\<close> of fields in range, with a year of at least 1601. A two-digit year token
  denotes a number from 0 to 99 and is raised by 1900 from 70 on and by 2000 below 70. The
  year rule, when it is the one that applies to a token, fails the parse for a year-value
  below 1601 and records it otherwise; a failing token fails the whole parse, and so does
  a time, day of month, month or year left unset after the last token. Year 1600 fails
  where year 1601 succeeds.
\<close>

theorem parseDate_year_and_failure:
  "(parseDate str = None \<or>
      (\<exists>y mo dd h mi s. parseDate str = Some (DateUTC y mo dd h mi s) \<and> 1601 \<le> y
         \<and> 0 \<le> mo \<and> mo \<le> 11 \<and> 1 \<le> dd \<and> dd \<le> 31 \<and> 0 \<le> h \<and> h \<le> 23
         \<and> 0 \<le> mi \<and> mi \<le> 59 \<and> 0 \<le> s \<and> s \<le> 59))
   \<and> (matchYEAR tok2 = Some y2 \<and> length y2 = 2 \<longrightarrow>
        0 \<le> parseInt y2 \<and> parseInt y2 \<le> 99
        \<and> yearValue y2 = (if 70 \<le> parseInt y2 then parseInt y2 + 1900 else parseInt y2 + 2000))
   \<and> (year st = None \<and> matchYEAR (trim tok) = Some y \<and> (day st \<noteq> None \<or> length y = 4) \<longrightarrow>
        dateToken st tok =
          (if yearValue y < 1601 then None else Some (st\<lparr>year := Some (yearValue y)\<rparr>)))
   \<and> (dateToken st tok = None \<longrightarrow> dateTokens st (tok # toks) = None)
   \<and> (dateTokens noFields (splitOn isDateDelim str) = None \<longrightarrow> parseDate str = None)
   \<and> (dateTokens noFields (splitOn isDateDelim str) = Some fin
        \<and> (seconds fin = None \<or> day fin = None \<or> month fin = None \<or> year fin = None)
      \<longrightarrow> parseDate str = None)
   \<and> parseDate ''01 Jan 1600 00:00:00'' = None
   \<and> parseDate ''01 Jan 1601 00:00:00'' = Some (DateUTC 1601 0 1 0 0 0)"
proof -
  have p1: "parseDate str = None \<or>
      (\<exists>y mo dd h mi s. parseDate str = Some (DateUTC y mo dd h mi s) \<and> 1601 \<le> y
         \<and> 0 \<le> mo \<and> mo \<le> 11 \<and> 1 \<le> dd \<and> dd \<le> 31 \<and> 0 \<le> h \<and> h \<le> 23
         \<and> 0 \<le> mi \<and> mi \<le> 59 \<and> 0 \<le> s \<and> s \<le> 59)"
  proof (cases "parseDate str")
    case None
    then show ?thesis by simp
  next
    case (Some d)
    from parseDate_Some [OF this] Some show ?thesis by blast
  qed
  have p2: "matchYEAR tok2 = Some y2 \<and> length y2 = 2 \<longrightarrow>
        0 \<le> parseInt y2 \<and> parseInt y2 \<le> 99
        \<and> yearValue y2 = (if 70 \<le> parseInt y2 then parseInt y2 + 1900 else parseInt y2 + 2000)"
    using yearValue_two_digits by blast
  have p3: "year st = None \<and> matchYEAR (trim tok) = Some y \<and> (day st \<noteq> None \<or> length y = 4) \<longrightarrow>
        dateToken st tok =
          (if yearValue y < 1601 then None else Some (st\<lparr>year := Some (yearValue y)\<rparr>))"
    using dateToken_year by blast
  have p4: "dateToken st tok = None \<longrightarrow> dateTokens st (tok # toks) = None" by simp
  have p5: "dateTokens noFields (splitOn isDateDelim str) = None \<longrightarrow> parseDate str = None"
    by (simp add: parseDate_def)
  have p6: "dateTokens noFields (splitOn isDateDelim str) = Some fin
        \<and> (seconds fin = None \<or> day fin = None \<or> month fin = None \<or> year fin = None)
      \<longrightarrow> parseDate str = None"
    by (auto simp: parseDate_def split: option.splits)
  have p7: "parseDate ''01 Jan 1600 00:00:00'' = None" by code_simp
  have p8: "parseDate ''01 Jan 1601 00:00:00'' = Some (DateUTC 1601 0 1 0 0 0)" by code_simp
  show ?thesis by (intro conjI) (fact p1 p2 p3 p4 p5 p6 p7 p8)+
qed

theorem parseDate_year_and_failure_witness:
  "yearValue ''70'' = 1970 \<and> yearValue ''69'' = 2069
   \<and> dateToken (noFields\<lparr>day := Some 1\<rparr>) ''1600'' = None
   \<and> dateTokens (noFields\<lparr>day := Some 1\<rparr>) [''1600'', ''Jan''] = None"
proof -
  let ?st = "noFields\<lparr>day := Some 1\<rparr>"
  note hi = parseDate_year_and_failure [where ?tok2.0 = "''70''" and ?y2.0 = "''70''"]
  note lo = parseDate_year_and_failure [where ?tok2.0 = "''69''" and ?y2.0 = "''69''"]
  note yr = parseDate_year_and_failure
    [where st = ?st and tok = "''1600''" and y = "''1600''" and toks = "[''Jan'']"]
  have m70: "matchYEAR ''70'' = Some ''70'' \<and> length ''70'' = 2" by code_simp
  have m69: "matchYEAR ''69'' = Some ''69'' \<and> length ''69'' = 2" by code_simp
  have p70: "parseInt ''70'' = 70" by code_simp
  have p69: "parseInt ''69'' = 69" by code_simp
  have a: "yearValue ''70'' = 1970"
    using hi [THEN conjunct2, THEN conjunct1, THEN mp, OF m70] p70 by simp
  have b: "yearValue ''69'' = 2069"
    using lo [THEN conjunct2, THEN conjunct1, THEN mp, OF m69] p69 by simp
  have h: "year ?st = None \<and> matchYEAR (trim ''1600'') = Some ''1600''
           \<and> (day ?st \<noteq> None \<or> length ''1600'' = 4)"
    by code_simp
  have v: "yearValue ''1600'' = 1600" by code_simp
  have c: "dateToken ?st ''1600'' = None"
    using yr [THEN conjunct2, THEN conjunct2, THEN conjunct1, THEN mp, OF h] v by simp
  have d: "dateTokens ?st [''1600'', ''Jan''] = None"
    by (rule yr [THEN conjunct2, THEN conjunct2, THEN conjunct2, THEN conjunct1, THEN mp, OF c])
  from a b c d show ?thesis by blast
qed

section \<open>The date formatter\<close>

text \<open>
  C5. The formatter is meant to emit \<open>Ddd, DD Mon YYYY HH:MM:SS GMT\<close>. Its template
  literal is broken over two source lines, so what it emits has a line feed and four
  blanks between the year and the hours: for the parsed date
  \<open>Thu, 01 Jan 1970 00:00:00 GMT\<close> the result is not that text again.
\<close>

theorem formatDate_parseDate_epoch:
  "parseDate ''Thu, 01 Jan 1970 00:00:00 GMT'' = Some 0
   \<and> formatDate 0 = ''Thu, 01 Jan 1970'' @ [CHR 0x0A] @ ''    00:00:00 GMT''
   \<and> formatDate 0 \<noteq> ''Thu, 01 Jan 1970 00:00:00 GMT''"
  by code_simp

lemma formatDate_line_feed: "CHR 0x0A \<in> set (formatDate d)"
  by (simp add: formatDate_def)

section \<open>Validation\<close>





text \<open>
  Two more departures of \<open>validate()\<close> from C8 as stated: the empty value is rejected
  (\<open>COOKIE_OCTETS\<close> asks for one octet or more), and a path with a control character is
  accepted as soon as one of its characters is in the class (\<open>PATH_VALUE\<close> has no anchors).
\<close>

lemma validate_empty_value: "\<not> validate noCollab (prototype\<lparr>maxAge := Some (Finite 1)\<rparr>)"
  by code_simp

lemma validate_unanchored_path:
  "validate noCollab (prototype\<lparr>cvalue := ''1'', path := Some (''/'' @ [CHR 0x01])\<rparr>)"
  by code_simp

section \<open>Setting a cookie: the paths through \<open>setCookie\<close>\<close>

lemma setCookie_parse_failure:
  assumes "obtainCookie j0 arg (effectiveLoose j0 options) clock = (None, j)"
  shows "setCookie x j0 arg ctx options clock = (deliver options ParseError, j)"
  using assms by (simp add: setCookie_def effectiveLoose_def deliver_def)

lemma setCookie_public_suffix:
  assumes "obtainCookie j0 arg (effectiveLoose j0 options) clock = (Some r, j)"
    and "publicSuffixRefused x j (heap j r)"
  shows "setCookie x j0 arg ctx options clock = (deliver options PublicSuffixError, j)"
  using assms
  by (simp add: setCookie_def effectiveLoose_def deliver_def Let_def)

lemma setCookie_domain_mismatch:
  assumes "obtainCookie j0 arg (effectiveLoose j0 options) clock = (Some r, j)"
    and "\<not> publicSuffixRefused x j (heap j r)"
    and "hostScope x (canonicalDomain x (hostname ctx)) (heap j r) = None"
  shows "setCookie x j0 arg ctx options clock = (deliver options DomainMismatchError, j)"
  using assms
  by (simp add: setCookie_def effectiveLoose_def deliver_def Let_def)

lemma setCookie_http_only:
  assumes "obtainCookie j0 arg (effectiveLoose j0 options) clock = (Some r, j)"
    and "\<not> publicSuffixRefused x j (heap j r)"
    and "hostScope x (canonicalDomain x (hostname ctx)) (heap j r) = Some c1"
    and "opt_http options = Some False \<and> httpOnly (pathScope ctx c1)"
  shows "setCookie x j0 arg ctx options clock
         = (deliver options HttpOnlyError, j\<lparr>heap := (heap j)(r := pathScope ctx c1)\<rparr>)"
  using assms
  by (simp add: setCookie_def effectiveLoose_def deliver_def Let_def)

lemma setCookie_old_http_only:
  assumes "obtainCookie j0 arg (effectiveLoose j0 options) clock = (Some r, j)"
    and "\<not> publicSuffixRefused x j (heap j r)"
    and "hostScope x (canonicalDomain x (hostname ctx)) (heap j r) = Some c1"
    and "\<not> (opt_http options = Some False \<and> httpOnly (pathScope ctx c1))"
    and "map_of (idx j) (identityOf (pathScope ctx c1)) = Some oldCookie"
    and "opt_http options = Some False \<and> httpOnly (((heap j)(r := pathScope ctx c1)) oldCookie)"
  shows "setCookie x j0 arg ctx options clock
         = (deliver options OldHttpOnlyError, j\<lparr>heap := (heap j)(r := pathScope ctx c1)\<rparr>)"
  using assms
  by (simp add: setCookie_def effectiveLoose_def deliver_def Let_def
        findCookie_def identityOf_def)

lemma setCookie_stores:
  assumes "obtainCookie j0 arg (effectiveLoose j0 options) clock = (Some r, j)"
    and "\<not> publicSuffixRefused x j (heap j r)"
    and "hostScope x (canonicalDomain x (hostname ctx)) (heap j r) = Some c1"
    and "\<not> (opt_http options = Some False \<and> httpOnly (pathScope ctx c1))"
    and "map_of (idx j) (identityOf (pathScope ctx c1)) = old"
    and "\<forall>oc. old = Some oc \<longrightarrow>
           \<not> (opt_http options = Some False \<and> httpOnly (((heap j)(r := pathScope ctx c1)) oc))"
  shows "setCookie x j0 arg ctx options clock
         = (CbResult r,
            j\<lparr>heap := (heap j)
                 (r := stored (pathScope ctx c1)
                         (map_option ((heap j)(r := pathScope ctx c1)) old)
                         (effectiveNow options clock)),
              idx := (identityOf (pathScope ctx c1), r)
                       # filter (\<lambda>e. fst e \<noteq> identityOf (pathScope ctx c1)) (idx j)\<rparr>)"
proof (cases old)
  case None
  with assms show ?thesis
    by (simp add: setCookie_def effectiveLoose_def Let_def
          findCookie_def putCookie_def identityOf_def stored_def effectiveNow_def)
next
  case (Some oc)
  with assms show ?thesis
    by (simp add: setCookie_def effectiveLoose_def Let_def
          findCookie_def putCookie_def updateCookie_def identityOf_def stored_def effectiveNow_def)
qed

lemma deliver_not_result: "deliver options e \<noteq> CbResult r" "CbResult r \<noteq> deliver options e"
  by (simp_all add: deliver_def)

lemma setCookie_success:
  assumes res: "setCookie x j0 arg ctx options clock = (CbResult r, j')"
  shows "\<exists>j c1.
      obtainCookie j0 arg (effectiveLoose j0 options) clock = (Some r, j)
    \<and> \<not> publicSuffixRefused x j (heap j r)
    \<and> hostScope x (canonicalDomain x (hostname ctx)) (heap j r) = Some c1
    \<and> \<not> (opt_http options = Some False \<and> httpOnly (pathScope ctx c1))
    \<and> (\<forall>oc. map_of (idx j) (identityOf (pathScope ctx c1)) = Some oc \<longrightarrow>
           \<not> (opt_http options = Some False \<and> httpOnly (((heap j)(r := pathScope ctx c1)) oc)))
    \<and> j' = j\<lparr>heap := (heap j)
               (r := stored (pathScope ctx c1)
                       (map_option ((heap j)(r := pathScope ctx c1))
                          (map_of (idx j) (identityOf (pathScope ctx c1))))
                       (effectiveNow options clock)),
             idx := (identityOf (pathScope ctx c1), r)
                      # filter (\<lambda>e. fst e \<noteq> identityOf (pathScope ctx c1)) (idx j)\<rparr>"
proof -
  obtain ro j where ob: "obtainCookie j0 arg (effectiveLoose j0 options) clock = (ro, j)"
    by (cases "obtainCookie j0 arg (effectiveLoose j0 options) clock")
  show ?thesis
  proof (cases ro)
    case None
    with ob res setCookie_parse_failure [of j0 arg options clock j x ctx] show ?thesis
      by (simp add: deliver_not_result)
  next
    case (Some r0)
    note ob' = ob [unfolded Some]
    show ?thesis
    proof (cases "publicSuffixRefused x j (heap j r0)")
      case True
      from setCookie_public_suffix [OF ob' True, of ctx] res show ?thesis
        by (simp add: deliver_not_result)
    next
      case ps: False
      show ?thesis
      proof (cases "hostScope x (canonicalDomain x (hostname ctx)) (heap j r0)")
        case None
        from setCookie_domain_mismatch [OF ob' ps None] res show ?thesis
          by (simp add: deliver_not_result)
      next
        case (Some c1)
        show ?thesis
        proof (cases "opt_http options = Some False \<and> httpOnly (pathScope ctx c1)")
          case True
          from setCookie_http_only [OF ob' ps Some True] res show ?thesis
            by (simp add: deliver_not_result)
        next
          case ho: False
          show ?thesis
          proof (cases "\<exists>oc. map_of (idx j) (identityOf (pathScope ctx c1)) = Some oc
                  \<and> opt_http options = Some False
                  \<and> httpOnly (((heap j)(r0 := pathScope ctx c1)) oc)")
            case True
            then obtain oc where oc: "map_of (idx j) (identityOf (pathScope ctx c1)) = Some oc"
              "opt_http options = Some False \<and> httpOnly (((heap j)(r0 := pathScope ctx c1)) oc)"
              by blast
            from setCookie_old_http_only [OF ob' ps Some ho oc] res show ?thesis
              by (simp add: deliver_not_result)
          next
            case False
            then have nf: "\<forall>oc. map_of (idx j) (identityOf (pathScope ctx c1)) = Some oc \<longrightarrow>
               \<not> (opt_http options = Some False
                   \<and> httpOnly (((heap j)(r0 := pathScope ctx c1)) oc))"
              by blast
            from setCookie_stores [OF ob' ps Some ho refl nf] res
            have "r = r0" and "j' = j\<lparr>heap := (heap j)
               (r0 := stored (pathScope ctx c1)
                       (map_option ((heap j)(r0 := pathScope ctx c1))
                          (map_of (idx j) (identityOf (pathScope ctx c1))))
                       (effectiveNow options clock)),
             idx := (identityOf (pathScope ctx c1), r0)
                      # filter (\<lambda>e. fst e \<noteq> identityOf (pathScope ctx c1)) (idx j)\<rparr>"
              by simp_all
            with ob' ps Some ho nf show ?thesis by blast
          qed
        qed
      qed
    qed
  qed
qed

lemma hostScope_Some:
  assumes "hostScope x host c = Some c1"
  shows "c1 = (if truthy (domain c)
               then (if hostOnly c = None then c\<lparr>hostOnly := Some False\<rparr> else c)
               else c\<lparr>hostOnly := Some True, domain := host\<rparr>)"
    and "truthy (domain c) \<longrightarrow> domainMatch x host (cdomain x c) False = Some True"
  using assms by (auto simp: hostScope_def split: if_splits)

lemma hostScope_None:
  "hostScope x host c = None \<longleftrightarrow>
     truthy (domain c) \<and> domainMatch x host (cdomain x c) False \<noteq> Some True"
  by (auto simp: hostScope_def)

lemma hostScope_frame:
  assumes "hostScope x host c = Some c1"
  shows "key c1 = key c \<and> cvalue c1 = cvalue c \<and> expires c1 = expires c \<and> maxAge c1 = maxAge c
       \<and> path c1 = path c \<and> secure c1 = secure c \<and> httpOnly c1 = httpOnly c
       \<and> extensions c1 = extensions c \<and> pathIsDefault c1 = pathIsDefault c
       \<and> creation c1 = creation c \<and> lastAccessed c1 = lastAccessed c
       \<and> creationIndex c1 = creationIndex c"
  using hostScope_Some(1) [OF assms] by simp

lemma pathScope_frame:
  "key (pathScope ctx c) = key c \<and> cvalue (pathScope ctx c) = cvalue c
   \<and> expires (pathScope ctx c) = expires c \<and> maxAge (pathScope ctx c) = maxAge c
   \<and> domain (pathScope ctx c) = domain c \<and> secure (pathScope ctx c) = secure c
   \<and> httpOnly (pathScope ctx c) = httpOnly c \<and> extensions (pathScope ctx c) = extensions c
   \<and> hostOnly (pathScope ctx c) = hostOnly c \<and> creation (pathScope ctx c) = creation c
   \<and> lastAccessed (pathScope ctx c) = lastAccessed c
   \<and> creationIndex (pathScope ctx c) = creationIndex c"
  by (simp add: pathScope_def)

lemma pathScope_slash: "\<exists>rest. path (pathScope ctx c) = Some (CHR ''/'' # rest)"
proof (cases "\<not> truthy (path c) \<or> (case path c of Some p \<Rightarrow> take 1 p \<noteq> ''/'' | None \<Rightarrow> True)")
  case True
  then have "path (pathScope ctx c) = Some (defaultPath (pathname ctx))"
    by (simp add: pathScope_def)
  with defaultPath_slash [of "pathname ctx"] show ?thesis by auto
next
  case False
  then obtain p where p: "path c = Some p" "take 1 p = ''/''"
    by (cases "path c") auto
  then obtain rest where "p = CHR ''/'' # rest" by (cases p) auto
  with False p show ?thesis by (simp add: pathScope_def)
qed

lemma pathScope_default:
  assumes "\<not> truthy (path c) \<or> (\<exists>p. path c = Some p \<and> take 1 p \<noteq> ''/'')"
  shows "pathScope ctx c = c\<lparr>path := Some (defaultPath (pathname ctx)), pathIsDefault := Some True\<rparr>"
  using assms by (auto simp: pathScope_def)

lemma stored_frame:
  "key (stored c old now) = key c \<and> cvalue (stored c old now) = cvalue c
   \<and> expires (stored c old now) = expires c \<and> maxAge (stored c old now) = maxAge c
   \<and> domain (stored c old now) = domain c \<and> path (stored c old now) = path c
   \<and> secure (stored c old now) = secure c \<and> httpOnly (stored c old now) = httpOnly c
   \<and> extensions (stored c old now) = extensions c \<and> hostOnly (stored c old now) = hostOnly c
   \<and> pathIsDefault (stored c old now) = pathIsDefault c
   \<and> lastAccessed (stored c old now) = Some now
   \<and> identityOf (stored c old now) = identityOf c"
  by (cases old) (simp_all add: stored_def identityOf_def)

lemma obtainCookie_Obj: "obtainCookie j (Obj r) loose clock = (Some r, j)"
  by (simp add: obtainCookie_def)

lemma obtainCookie_frame:
  assumes "obtainCookie j0 arg loose clock = (Some r, j)"
  shows "idx j = idx j0 \<and> (\<forall>q. q \<noteq> r \<longrightarrow> heap j q = heap j0 q)
       \<and> ((arg = Obj r \<and> j = j0) \<or> ((\<exists>s. arg = Str s) \<and> r = Suc (cookiesCreated j0)))"
proof (cases arg)
  case (Obj r0)
  with assms show ?thesis by (simp add: obtainCookie_def)
next
  case (Str s)
  obtain co n where p: "parse s loose (cookiesCreated j0) clock = (co, n)"
    by (cases "parse s loose (cookiesCreated j0) clock")
  with Str assms obtain c where c: "co = Some c" by (cases co) (simp_all add: obtainCookie_def)
  from p c have "n = Suc (cookiesCreated j0)"
    by (auto simp: parse_def Let_def split: option.splits if_splits prod.splits)
  with Str assms p c show ?thesis by (auto simp: obtainCookie_def)
qed


lemma map_of_put:
  "map_of ((t, r) # filter (\<lambda>e. fst e \<noteq> t) i) t = Some r
   \<and> filter (\<lambda>e. fst e = t) ((t, r) # filter (\<lambda>e. fst e \<noteq> t) i) = [(t, r)]"
  by (induction i) auto

text \<open>
  C4. Every policy failure of \<open>setCookie\<close> calls the completion with its error, or,
  under \<open>options.ignoreError\<close>, with a null error and no cookie: the parse failure; the
  domain that is a public suffix while the jar rejects public suffixes; the domain that
  the request host does not match; the \<open>httpOnly\<close> cookie set from a non-HTTP context
  (\<open>options.http\<close> is \<open>false\<close>); and the replacement of an \<open>httpOnly\<close> cookie from
  such a context. A null error without a cookie is delivered under \<open>ignoreError\<close> only.
\<close>

theorem setCookie_policy_failures:
  "(obtainCookie j0 arg (effectiveLoose j0 options) clock = (None, j) \<longrightarrow>
      fst (setCookie x j0 arg ctx options clock) = deliver options ParseError)
   \<and> (obtainCookie j0 arg (effectiveLoose j0 options) clock = (Some r, j)
       \<and> rejectPublicSuffixes j \<and> truthy (domain (heap j r))
       \<and> (\<exists>d. cdomain x (heap j r) = Some d \<and> getPublicSuffix x d = None) \<longrightarrow>
      fst (setCookie x j0 arg ctx options clock) = deliver options PublicSuffixError)
   \<and> (obtainCookie j0 arg (effectiveLoose j0 options) clock = (Some r, j)
       \<and> \<not> publicSuffixRefused x j (heap j r) \<and> truthy (domain (heap j r))
       \<and> domainMatch x (canonicalDomain x (hostname ctx)) (cdomain x (heap j r)) False \<noteq> Some True \<longrightarrow>
      fst (setCookie x j0 arg ctx options clock) = deliver options DomainMismatchError)
   \<and> (obtainCookie j0 arg (effectiveLoose j0 options) clock = (Some r, j)
       \<and> \<not> publicSuffixRefused x j (heap j r)
       \<and> hostScope x (canonicalDomain x (hostname ctx)) (heap j r) = Some c1
       \<and> opt_http options = Some False \<and> httpOnly (heap j r) \<longrightarrow>
      fst (setCookie x j0 arg ctx options clock) = deliver options HttpOnlyError)
   \<and> (obtainCookie j0 arg (effectiveLoose j0 options) clock = (Some r, j)
       \<and> \<not> publicSuffixRefused x j (heap j r)
       \<and> hostScope x (canonicalDomain x (hostname ctx)) (heap j r) = Some c1
       \<and> opt_http options = Some False \<and> \<not> httpOnly (heap j r)
       \<and> map_of (idx j) (identityOf (pathScope ctx c1)) = Some oc \<and> httpOnly (heap j oc) \<longrightarrow>
      fst (setCookie x j0 arg ctx options clock) = deliver options OldHttpOnlyError)
   \<and> deliver options e = (if opt_ignoreError options then CbNull else CbError e)
   \<and> (fst (setCookie x j0 arg ctx options clock) = CbNull \<longrightarrow> opt_ignoreError options)"
proof -
  let ?res = "setCookie x j0 arg ctx options clock"
  let ?host = "canonicalDomain x (hostname ctx)"
  have p1: "obtainCookie j0 arg (effectiveLoose j0 options) clock = (None, j) \<longrightarrow>
      fst ?res = deliver options ParseError"
    by (simp add: setCookie_parse_failure)
  have p2: "obtainCookie j0 arg (effectiveLoose j0 options) clock = (Some r, j)
       \<and> rejectPublicSuffixes j \<and> truthy (domain (heap j r))
       \<and> (\<exists>d. cdomain x (heap j r) = Some d \<and> getPublicSuffix x d = None) \<longrightarrow>
      fst ?res = deliver options PublicSuffixError"
  proof
    assume a: "obtainCookie j0 arg (effectiveLoose j0 options) clock = (Some r, j)
       \<and> rejectPublicSuffixes j \<and> truthy (domain (heap j r))
       \<and> (\<exists>d. cdomain x (heap j r) = Some d \<and> getPublicSuffix x d = None)"
    then have "publicSuffixRefused x j (heap j r)" by (auto simp: publicSuffixRefused_def)
    with a show "fst ?res = deliver options PublicSuffixError"
      by (simp add: setCookie_public_suffix)
  qed
  have p3: "obtainCookie j0 arg (effectiveLoose j0 options) clock = (Some r, j)
       \<and> \<not> publicSuffixRefused x j (heap j r) \<and> truthy (domain (heap j r))
       \<and> domainMatch x ?host (cdomain x (heap j r)) False \<noteq> Some True \<longrightarrow>
      fst ?res = deliver options DomainMismatchError"
  proof
    assume a: "obtainCookie j0 arg (effectiveLoose j0 options) clock = (Some r, j)
       \<and> \<not> publicSuffixRefused x j (heap j r) \<and> truthy (domain (heap j r))
       \<and> domainMatch x ?host (cdomain x (heap j r)) False \<noteq> Some True"
    then have "hostScope x ?host (heap j r) = None" by (simp add: hostScope_None)
    with a show "fst ?res = deliver options DomainMismatchError"
      by (simp add: setCookie_domain_mismatch)
  qed
  have p4: "obtainCookie j0 arg (effectiveLoose j0 options) clock = (Some r, j)
       \<and> \<not> publicSuffixRefused x j (heap j r)
       \<and> hostScope x ?host (heap j r) = Some c1
       \<and> opt_http options = Some False \<and> httpOnly (heap j r) \<longrightarrow>
      fst ?res = deliver options HttpOnlyError"
  proof
    assume a: "obtainCookie j0 arg (effectiveLoose j0 options) clock = (Some r, j)
       \<and> \<not> publicSuffixRefused x j (heap j r)
       \<and> hostScope x ?host (heap j r) = Some c1
       \<and> opt_http options = Some False \<and> httpOnly (heap j r)"
    then have "httpOnly (pathScope ctx c1)"
      using hostScope_frame [of x ?host "heap j r" c1] pathScope_frame [of ctx c1] by simp
    with a show "fst ?res = deliver options HttpOnlyError"
      by (simp add: setCookie_http_only)
  qed
  have p5: "obtainCookie j0 arg (effectiveLoose j0 options) clock = (Some r, j)
       \<and> \<not> publicSuffixRefused x j (heap j r)
       \<and> hostScope x ?host (heap j r) = Some c1
       \<and> opt_http options = Some False \<and> \<not> httpOnly (heap j r)
       \<and> map_of (idx j) (identityOf (pathScope ctx c1)) = Some oc \<and> httpOnly (heap j oc) \<longrightarrow>
      fst ?res = deliver options OldHttpOnlyError"
  proof
    assume a: "obtainCookie j0 arg (effectiveLoose j0 options) clock = (Some r, j)
       \<and> \<not> publicSuffixRefused x j (heap j r)
       \<and> hostScope x ?host (heap j r) = Some c1
       \<and> opt_http options = Some False \<and> \<not> httpOnly (heap j r)
       \<and> map_of (idx j) (identityOf (pathScope ctx c1)) = Some oc \<and> httpOnly (heap j oc)"
    then have nh: "\<not> httpOnly (pathScope ctx c1)"
      using hostScope_frame [of x ?host "heap j r" c1] pathScope_frame [of ctx c1] by simp
    from a have "oc \<noteq> r" by auto
    with a have "httpOnly (((heap j)(r := pathScope ctx c1)) oc)" by simp
    with a nh show "fst ?res = deliver options OldHttpOnlyError"
      using setCookie_old_http_only [of j0 arg options clock r j x ctx c1 oc] by simp
  qed
  have p6: "deliver options e = (if opt_ignoreError options then CbNull else CbError e)"
    by (simp add: deliver_def)
  have p7: "fst ?res = CbNull \<longrightarrow> opt_ignoreError options"
  proof
    assume n: "fst ?res = CbNull"
    have d: "\<And>e. deliver options e = CbNull \<Longrightarrow> opt_ignoreError options"
      by (simp add: deliver_def split: if_splits)
    obtain ro j where ob: "obtainCookie j0 arg (effectiveLoose j0 options) clock = (ro, j)"
      by (cases "obtainCookie j0 arg (effectiveLoose j0 options) clock")
    show "opt_ignoreError options"
    proof (cases ro)
      case None
      with ob n setCookie_parse_failure [of j0 arg options clock j x ctx] d show ?thesis by simp
    next
      case (Some r0)
      note ob' = ob [unfolded Some]
      show ?thesis
      proof (cases "publicSuffixRefused x j (heap j r0)")
        case True
        from setCookie_public_suffix [OF ob' True, of ctx] n d show ?thesis by simp
      next
        case ps: False
        show ?thesis
        proof (cases "hostScope x ?host (heap j r0)")
          case None
          from setCookie_domain_mismatch [OF ob' ps None] n d show ?thesis by simp
        next
          case (Some c1)
          show ?thesis
          proof (cases "opt_http options = Some False \<and> httpOnly (pathScope ctx c1)")
            case True
            from setCookie_http_only [OF ob' ps Some True] n d show ?thesis by simp
          next
            case ho: False
            show ?thesis
            proof (cases "\<exists>oc. map_of (idx j) (identityOf (pathScope ctx c1)) = Some oc
                    \<and> opt_http options = Some False
                    \<and> httpOnly (((heap j)(r0 := pathScope ctx c1)) oc)")
              case True
              then obtain oc where oc: "map_of (idx j) (identityOf (pathScope ctx c1)) = Some oc"
                "opt_http options = Some False \<and> httpOnly (((heap j)(r0 := pathScope ctx c1)) oc)"
                by blast
              from setCookie_old_http_only [OF ob' ps Some ho oc] n d show ?thesis by simp
            next
              case False
              then have nf: "\<forall>oc. map_of (idx j) (identityOf (pathScope ctx c1)) = Some oc \<longrightarrow>
                 \<not> (opt_http options = Some False
                     \<and> httpOnly (((heap j)(r0 := pathScope ctx c1)) oc))"
                by blast
              from setCookie_stores [OF ob' ps Some ho refl nf] n show ?thesis by simp
            qed
          qed
        qed
      qed
    qed
  qed
  show ?thesis by (intro conjI) (fact p1 p2 p3 p4 p5 p6 p7)+
qed

lemma setCookie_accepted:
  assumes res: "setCookie x j0 arg ctx options clock = (CbResult r, j')"
  shows "\<exists>j c1.
      obtainCookie j0 arg (effectiveLoose j0 options) clock = (Some r, j)
    \<and> hostScope x (canonicalDomain x (hostname ctx)) (heap j r) = Some c1
    \<and> heap j' = (heap j)(r := stored (pathScope ctx c1)
                       (map_option ((heap j)(r := pathScope ctx c1))
                          (map_of (idx j) (identityOf (pathScope ctx c1))))
                       (effectiveNow options clock))
    \<and> idx j' = (identityOf (pathScope ctx c1), r)
                # filter (\<lambda>e. fst e \<noteq> identityOf (pathScope ctx c1)) (idx j)
    \<and> cookiesCreated j' = cookiesCreated j"
proof -
  from setCookie_success [OF res] obtain j c1 where
    a: "obtainCookie j0 arg (effectiveLoose j0 options) clock = (Some r, j)"
    and b: "hostScope x (canonicalDomain x (hostname ctx)) (heap j r) = Some c1"
    and c: "j' = j\<lparr>heap := (heap j)
               (r := stored (pathScope ctx c1)
                       (map_option ((heap j)(r := pathScope ctx c1))
                          (map_of (idx j) (identityOf (pathScope ctx c1))))
                       (effectiveNow options clock)),
             idx := (identityOf (pathScope ctx c1), r)
                      # filter (\<lambda>e. fst e \<noteq> identityOf (pathScope ctx c1)) (idx j)\<rparr>"
    by blast
  from c have "heap j' = (heap j)(r := stored (pathScope ctx c1)
                       (map_option ((heap j)(r := pathScope ctx c1))
                          (map_of (idx j) (identityOf (pathScope ctx c1))))
                       (effectiveNow options clock))"
    and "idx j' = (identityOf (pathScope ctx c1), r)
                # filter (\<lambda>e. fst e \<noteq> identityOf (pathScope ctx c1)) (idx j)"
    and "cookiesCreated j' = cookiesCreated j"
    by simp_all
  with a b show ?thesis by blast
qed

lemma setCookie_in_store:
  assumes res: "setCookie x j0 arg ctx options clock = (CbResult r, j')"
  shows "map_of (idx j') (identityOf (heap j' r)) = Some r
       \<and> filter (\<lambda>e. fst e = identityOf (heap j' r)) (idx j')
           = [(identityOf (heap j' r), r)]"
proof -
  from setCookie_accepted [OF res] obtain j c1 where
    ob: "obtainCookie j0 arg (effectiveLoose j0 options) clock = (Some r, j)"
    and hs: "hostScope x (canonicalDomain x (hostname ctx)) (heap j r) = Some c1"
    and h: "heap j' = (heap j)(r := stored (pathScope ctx c1)
                       (map_option ((heap j)(r := pathScope ctx c1))
                          (map_of (idx j) (identityOf (pathScope ctx c1))))
                       (effectiveNow options clock))"
    and i: "idx j' = (identityOf (pathScope ctx c1), r)
                # filter (\<lambda>e. fst e \<noteq> identityOf (pathScope ctx c1)) (idx j)"
    and cc: "cookiesCreated j' = cookiesCreated j"
    by blast
  from h have "identityOf (heap j' r) = identityOf (pathScope ctx c1)"
    by (simp add: stored_frame)
  with i map_of_put [of "identityOf (pathScope ctx c1)" r "idx j"] show ?thesis by simp
qed

text \<open>
  C1 (as amended). When \<open>setCookie\<close> stores a cookie whose identity triple already has
  a cookie in the store (one constructed before the call), the lookup of that triple
  afterwards answers the new cookie and the store holds no other entry for the triple;
  the stored cookie has the prior cookie's \<open>creation\<close> and \<open>creationIndex\<close>, and its
  \<open>lastAccessed\<close> is \<open>options.now\<close> when the caller supplied it and the current time
  otherwise.
\<close>

theorem setCookie_replaces:
  assumes res: "setCookie x j0 arg ctx options clock = (CbResult r, j')"
    and prior: "map_of (idx j0) (identityOf (heap j' r)) = Some oc"
    and made: "oc \<le> cookiesCreated j0"
  shows "map_of (idx j') (identityOf (heap j' r)) = Some r
       \<and> filter (\<lambda>e. fst e = identityOf (heap j' r)) (idx j')
           = [(identityOf (heap j' r), r)]
       \<and> creation (heap j' r) = creation (heap j0 oc)
       \<and> creationIndex (heap j' r) = creationIndex (heap j0 oc)
       \<and> lastAccessed (heap j' r) = Some (effectiveNow options clock)"
proof -
  let ?host = "canonicalDomain x (hostname ctx)"
  from setCookie_accepted [OF res] obtain j c1 where
    ob: "obtainCookie j0 arg (effectiveLoose j0 options) clock = (Some r, j)"
    and hs: "hostScope x (canonicalDomain x (hostname ctx)) (heap j r) = Some c1"
    and h: "heap j' = (heap j)(r := stored (pathScope ctx c1)
                       (map_option ((heap j)(r := pathScope ctx c1))
                          (map_of (idx j) (identityOf (pathScope ctx c1))))
                       (effectiveNow options clock))"
    and i: "idx j' = (identityOf (pathScope ctx c1), r)
                # filter (\<lambda>e. fst e \<noteq> identityOf (pathScope ctx c1)) (idx j)"
    and cc: "cookiesCreated j' = cookiesCreated j"
    by blast
  let ?c2 = "pathScope ctx c1"
  from obtainCookie_frame [OF ob] have fr: "idx j = idx j0"
    "\<forall>q. q \<noteq> r \<longrightarrow> heap j q = heap j0 q"
    "(arg = Obj r \<and> j = j0) \<or> ((\<exists>s. arg = Str s) \<and> r = Suc (cookiesCreated j0))"
    by simp_all
  from h have id: "identityOf (heap j' r) = identityOf ?c2" by (simp add: stored_frame)
  with prior fr(1) have old: "map_of (idx j) (identityOf ?c2) = Some oc" by simp
  with h have st: "heap j' r = stored ?c2 (Some (((heap j)(r := ?c2)) oc)) (effectiveNow options clock)"
    by simp
  have same: "creation (((heap j)(r := ?c2)) oc) = creation (heap j0 oc)
            \<and> creationIndex (((heap j)(r := ?c2)) oc) = creationIndex (heap j0 oc)"
  proof (cases "oc = r")
    case True
    with made fr(3) have "j = j0" by auto
    with True hostScope_frame [OF hs] pathScope_frame [of ctx c1] show ?thesis by simp
  next
    case False
    with fr(2) show ?thesis by simp
  qed
  from st same have "creation (heap j' r) = creation (heap j0 oc)
       \<and> creationIndex (heap j' r) = creationIndex (heap j0 oc)
       \<and> lastAccessed (heap j' r) = Some (effectiveNow options clock)"
    by (simp add: stored_def)
  with setCookie_in_store [OF res] show ?thesis by simp
qed

text \<open>
  C3. A cookie accepted by \<open>setCookie\<close> that carried no domain (as parsed, or as the
  \<open>Cookie\<close> passed in) is stored with \<open>hostOnly\<close> true and with the canonical domain
  of the request host as its domain.
\<close>

theorem setCookie_host_only:
  assumes res: "setCookie x j0 arg ctx options clock = (CbResult r, j')"
    and nodomain: "\<not> truthy (domain (heap (snd (obtainCookie j0 arg (effectiveLoose j0 options) clock)) r))"
  shows "hostOnly (heap j' r) = Some True
       \<and> domain (heap j' r) = canonicalDomain x (hostname ctx)
       \<and> map_of (idx j') (identityOf (heap j' r)) = Some r"
proof -
  let ?host = "canonicalDomain x (hostname ctx)"
  from setCookie_accepted [OF res] obtain j c1 where
    ob: "obtainCookie j0 arg (effectiveLoose j0 options) clock = (Some r, j)"
    and hs: "hostScope x (canonicalDomain x (hostname ctx)) (heap j r) = Some c1"
    and h: "heap j' = (heap j)(r := stored (pathScope ctx c1)
                       (map_option ((heap j)(r := pathScope ctx c1))
                          (map_of (idx j) (identityOf (pathScope ctx c1))))
                       (effectiveNow options clock))"
    and i: "idx j' = (identityOf (pathScope ctx c1), r)
                # filter (\<lambda>e. fst e \<noteq> identityOf (pathScope ctx c1)) (idx j)"
    and cc: "cookiesCreated j' = cookiesCreated j"
    by blast
  from nodomain ob have "\<not> truthy (domain (heap j r))" by simp
  with hostScope_Some(1) [OF hs] have "c1 = (heap j r)\<lparr>hostOnly := Some True, domain := ?host\<rparr>"
    by simp
  then have "hostOnly c1 = Some True \<and> domain c1 = ?host" by simp
  with h pathScope_frame [of ctx c1] have "hostOnly (heap j' r) = Some True
       \<and> domain (heap j' r) = ?host"
    by (simp add: stored_frame)
  with setCookie_in_store [OF res] show ?thesis by simp
qed

text \<open>
  C9. The path of a cookie accepted by \<open>setCookie\<close> is present and begins with a slash
  in the store. When the incoming cookie had no path, or one that does not start with a
  slash, the stored path is \<open>defaultPath\<close> of the request URL's path and
  \<open>pathIsDefault\<close> is true; and whatever \<open>defaultPath\<close> is given, its result begins
  with a slash.
\<close>

theorem setCookie_path:
  assumes res: "setCookie x j0 arg ctx options clock = (CbResult r, j')"
  shows "(\<exists>rest. path (heap j' r) = Some (CHR ''/'' # rest))
       \<and> map_of (idx j') (identityOf (heap j' r)) = Some r
       \<and> (\<not> truthy (path (heap (snd (obtainCookie j0 arg (effectiveLoose j0 options) clock)) r))
            \<or> (\<exists>p. path (heap (snd (obtainCookie j0 arg (effectiveLoose j0 options) clock)) r) = Some p
                   \<and> take 1 p \<noteq> ''/'')
          \<longrightarrow> path (heap j' r) = Some (defaultPath (pathname ctx))
              \<and> pathIsDefault (heap j' r) = Some True)
       \<and> (\<exists>rest. defaultPath u = CHR ''/'' # rest)"
proof -
  let ?host = "canonicalDomain x (hostname ctx)"
  from setCookie_accepted [OF res] obtain j c1 where
    ob: "obtainCookie j0 arg (effectiveLoose j0 options) clock = (Some r, j)"
    and hs: "hostScope x (canonicalDomain x (hostname ctx)) (heap j r) = Some c1"
    and h: "heap j' = (heap j)(r := stored (pathScope ctx c1)
                       (map_option ((heap j)(r := pathScope ctx c1))
                          (map_of (idx j) (identityOf (pathScope ctx c1))))
                       (effectiveNow options clock))"
    and i: "idx j' = (identityOf (pathScope ctx c1), r)
                # filter (\<lambda>e. fst e \<noteq> identityOf (pathScope ctx c1)) (idx j)"
    and cc: "cookiesCreated j' = cookiesCreated j"
    by blast
  from h have p: "path (heap j' r) = path (pathScope ctx c1)"
    and d: "pathIsDefault (heap j' r) = pathIsDefault (pathScope ctx c1)"
    by (simp_all add: stored_frame)
  from p pathScope_slash [of ctx c1] have a: "\<exists>rest. path (heap j' r) = Some (CHR ''/'' # rest)"
    by simp
  have b: "\<not> truthy (path (heap (snd (obtainCookie j0 arg (effectiveLoose j0 options) clock)) r))
            \<or> (\<exists>p. path (heap (snd (obtainCookie j0 arg (effectiveLoose j0 options) clock)) r) = Some p
                   \<and> take 1 p \<noteq> ''/'')
          \<longrightarrow> path (heap j' r) = Some (defaultPath (pathname ctx))
              \<and> pathIsDefault (heap j' r) = Some True"
  proof
    assume "\<not> truthy (path (heap (snd (obtainCookie j0 arg (effectiveLoose j0 options) clock)) r))
            \<or> (\<exists>p. path (heap (snd (obtainCookie j0 arg (effectiveLoose j0 options) clock)) r) = Some p
                   \<and> take 1 p \<noteq> ''/'')"
    with ob hostScope_frame [OF hs]
    have "\<not> truthy (path c1) \<or> (\<exists>p. path c1 = Some p \<and> take 1 p \<noteq> ''/'')" by simp
    from pathScope_default [OF this, of ctx] p d
    show "path (heap j' r) = Some (defaultPath (pathname ctx))
              \<and> pathIsDefault (heap j' r) = Some True"
      by simp
  qed
  from a b setCookie_in_store [OF res] defaultPath_slash [of u] show ?thesis by blast
qed

text \<open>
  C10. Given a \<open>Cookie\<close> object, \<open>setCookie\<close> on success delivers that same object to
  the completion and to the store: the address in the completion and the address stored
  under the cookie's identity are the address passed in; no other object changes and no
  object is constructed. The object itself is updated in place: \<open>hostOnly\<close>,
  \<open>domain\<close>, \<open>path\<close>, \<open>pathIsDefault\<close>, \<open>creation\<close>, \<open>lastAccessed\<close> and
  \<open>creationIndex\<close> are set as the policy steps dictate, and its other fields stay.
\<close>

theorem setCookie_same_object:
  assumes res: "setCookie x j0 (Obj r) ctx options clock = (CbResult r', j')"
  shows "r' = r
       \<and> map_of (idx j') (identityOf (heap j' r)) = Some r
       \<and> (\<forall>q. q \<noteq> r \<longrightarrow> heap j' q = heap j0 q)
       \<and> cookiesCreated j' = cookiesCreated j0
       \<and> (\<exists>c1. hostScope x (canonicalDomain x (hostname ctx)) (heap j0 r) = Some c1
             \<and> heap j' r = stored (pathScope ctx c1)
                  (map_option ((heap j0)(r := pathScope ctx c1))
                     (map_of (idx j0) (identityOf (pathScope ctx c1))))
                  (effectiveNow options clock))
       \<and> key (heap j' r) = key (heap j0 r) \<and> cvalue (heap j' r) = cvalue (heap j0 r)
       \<and> expires (heap j' r) = expires (heap j0 r) \<and> maxAge (heap j' r) = maxAge (heap j0 r)
       \<and> secure (heap j' r) = secure (heap j0 r) \<and> httpOnly (heap j' r) = httpOnly (heap j0 r)
       \<and> extensions (heap j' r) = extensions (heap j0 r)"
proof -
  let ?host = "canonicalDomain x (hostname ctx)"
  from setCookie_accepted [OF res] obtain j c1 where
    ob: "obtainCookie j0 (Obj r) (effectiveLoose j0 options) clock = (Some r', j)"
    and hs: "hostScope x (canonicalDomain x (hostname ctx)) (heap j r') = Some c1"
    and h: "heap j' = (heap j)(r' := stored (pathScope ctx c1)
                       (map_option ((heap j)(r' := pathScope ctx c1))
                          (map_of (idx j) (identityOf (pathScope ctx c1))))
                       (effectiveNow options clock))"
    and i: "idx j' = (identityOf (pathScope ctx c1), r')
                # filter (\<lambda>e. fst e \<noteq> identityOf (pathScope ctx c1)) (idx j)"
    and cc: "cookiesCreated j' = cookiesCreated j"
    by blast
  from ob have eq: "r' = r" "j = j0" by (simp_all add: obtainCookie_def)
  from h eq have fr: "\<forall>q. q \<noteq> r \<longrightarrow> heap j' q = heap j0 q" by simp
  from h eq have st: "heap j' r = stored (pathScope ctx c1)
                  (map_option ((heap j0)(r := pathScope ctx c1))
                     (map_of (idx j0) (identityOf (pathScope ctx c1))))
                  (effectiveNow options clock)"
    by simp
  from st hostScope_frame [OF hs] pathScope_frame [of ctx c1] eq
  have fields: "key (heap j' r) = key (heap j0 r) \<and> cvalue (heap j' r) = cvalue (heap j0 r)
       \<and> expires (heap j' r) = expires (heap j0 r) \<and> maxAge (heap j' r) = maxAge (heap j0 r)
       \<and> secure (heap j' r) = secure (heap j0 r) \<and> httpOnly (heap j' r) = httpOnly (heap j0 r)
       \<and> extensions (heap j' r) = extensions (heap j0 r)"
    by (simp add: stored_frame)
  from setCookie_in_store [OF res] eq have "map_of (idx j') (identityOf (heap j' r)) = Some r"
    by simp
  with eq fr cc st hs fields show ?thesis by blast
qed

section \<open>Getting cookies\<close>

lemma filterCandidates_total:
  assumes "\<forall>r \<in> set cands. \<exists>v. f (h r) = Inr v"
  shows "filterCandidates f h cands
         = (Inr (filter (\<lambda>r. f (h r) = Inr Keep) cands),
            map (\<lambda>r. identityOf (h r)) (filter (\<lambda>r. f (h r) = Inr Evict) cands))"
  using assms
proof (induction cands)
  case Nil
  then show ?case by simp
next
  case (Cons r rs)
  then obtain v where v: "f (h r) = Inr v" by auto
  from Cons have ih: "filterCandidates f h rs
         = (Inr (filter (\<lambda>r. f (h r) = Inr Keep) rs),
            map (\<lambda>r. identityOf (h r)) (filter (\<lambda>r. f (h r) = Inr Evict) rs))"
    by simp
  show ?case using v ih by (cases v) simp_all
qed

lemma mset_insertBy: "mset (insertBy cmp a xs) = add_mset a (mset xs)"
  by (induction xs) simp_all

lemma mset_sortBy: "mset (sortBy cmp xs) = mset xs"
  by (induction xs) (simp_all add: sortBy_def mset_insertBy)

lemma applyRemovals_idx:
  "idx (applyRemovals j ts) = filter (\<lambda>e. fst e \<notin> set ts) (idx j)
   \<and> heap (applyRemovals j ts) = heap j"
proof (induction ts arbitrary: j)
  case Nil
  then show ?case by (simp add: applyRemovals_def)
next
  case (Cons t ts)
  have "applyRemovals j (t # ts) = applyRemovals (j\<lparr>idx := filter (\<lambda>e. fst e \<noteq> t) (idx j)\<rparr>) ts"
    by (simp add: applyRemovals_def removeCookie_def)
  with Cons [of "j\<lparr>idx := filter (\<lambda>e. fst e \<noteq> t) (idx j)\<rparr>"] show ?case
    by (auto intro: filter_cong)
qed

lemma arraySort_safe:
  assumes "\<not> somePairThrows cmp xs"
  shows "\<exists>ys. arraySort cmp xs = Inr ys \<and> mset ys = mset xs"
  using assms by (simp add: arraySort_def mset_sortBy)

lemma expiryTime_throws:
  "throws (expiryTime c None clock) \<longleftrightarrow>
     (case maxAge c of
        Some a \<Rightarrow> (\<exists>s. creation c = Some (TextValue s) \<and> s \<noteq> [])
      | None \<Rightarrow> (\<exists>s. expires c = ExpString s))"
  by (auto simp: throws_def expiryTime_def Let_def
        split: option.splits expiry.splits stamp.splits)

lemma cookieCompare_throws:
  "throws (cookieCompare objA objB) \<longleftrightarrow>
     (case path objA of Some p \<Rightarrow> length p | None \<Rightarrow> 0)
       = (case path objB of Some p \<Rightarrow> length p | None \<Rightarrow> 0)
     \<and> (throws (creationTime objA) \<or> throws (creationTime objB))"
  by (auto simp: throws_def cookieCompare_def Let_def split: option.splits sum.splits)

lemma creationTime_throws:
  "throws (creationTime obj) \<longleftrightarrow> (\<exists>s. creation obj = Some (TextValue s) \<and> s \<noteq> [])"
  by (auto simp: throws_def creationTime_def split: option.splits stamp.splits)

lemma matchingCookie_verdict:
  assumes "\<not> (hostFilter x host c \<and> pathFilter allPaths reqPath c
              \<and> flagFilter secureCtx httpCtx c
              \<and> expireCheck \<and> throws (expiryTime c None clock))"
  shows "matchingCookie x host reqPath secureCtx httpCtx now expireCheck allPaths clock c
         = Inr (if hostFilter x host c \<and> pathFilter allPaths reqPath c
                   \<and> flagFilter secureCtx httpCtx c
                then (if expireCheck
                         \<and> (case expiryTime c None clock of
                               Inr t \<Rightarrow> num_le t (Finite now)
                             | Inl e \<Rightarrow> False)
                      then Evict else Keep)
                else Drop)"
proof (cases "expiryTime c None clock")
  case (Inl e)
  with assms show ?thesis
    unfolding matchingCookie_def hostFilter_def pathFilter_def flagFilter_def throws_def
    by auto
next
  case (Inr t)
  then show ?thesis
    unfolding matchingCookie_def hostFilter_def pathFilter_def flagFilter_def
    by auto
qed

text \<open>
  C2 (as amended). For every request URL and jar state, with \<open>cands\<close> the candidates
  the store's \<open>findCookies\<close> answers: provided that \<open>expiryTime()\<close> throws for no candidate
  that passes the host, path, secure and \<open>httpOnly\<close> filters while expiry checking is
  on, and that \<open>cookieCompare\<close> throws for no two of the candidates that pass all filters
  while sorting is on, \<open>getCookies\<close> completes with exactly the candidates that pass all
  filters: equality of the domain with the canonical request host for a host-only cookie,
  else domain-match; path-match of the request path unless \<open>allPaths\<close>; secure cookies in
  a secure context only; \<open>httpOnly\<close> cookies in an HTTP context only; and, with expiry
  checking on, an expiry time after \<open>now\<close>, which is \<open>options.now || Date.now()\<close>. They
  come in the store's order when sorting is off and as a permutation of it otherwise. A
  removal is requested from the store for exactly the candidates that pass the host,
  path, secure and \<open>httpOnly\<close> filters and whose expiry time is at or before \<open>now\<close> with
  expiry checking on; whatever the removals report is ignored, and the store afterwards
  lacks the removed identities.
\<close>

theorem getCookies_filters:
  assumes cands: "fc (idx j) (canonicalDomain x (hostname ctx))
                    (if get_allPaths options then None else Some (requestPath ctx)) = Inr cands"
    and filterSafe: "list_all (\<lambda>r. \<not> (inScope x ctx options (heap j r)
                                        \<and> expiryThrows options clock (heap j r))) cands"
    and sortSafe: "get_sort options = Some False
                   \<or> \<not> somePairThrows (\<lambda>a b. cookieCompare (heap j a) (heap j b))
                          (filter (\<lambda>r. passes x ctx options clock (heap j r)) cands)"
  shows "\<exists>rs. outcome (getCookies x fc j ctx options clock) = Inr (CbResult rs)
       \<and> mset rs = mset (filter (\<lambda>r. passes x ctx options clock (heap j r)) cands)
       \<and> (get_sort options = Some False \<longrightarrow>
            rs = filter (\<lambda>r. passes x ctx options clock (heap j r)) cands)
       \<and> removals (getCookies x fc j ctx options clock)
           = map (\<lambda>r. identityOf (heap j r))
               (filter (\<lambda>r. inScope x ctx options (heap j r)
                             \<and> evicted options clock (heap j r)) cands)
       \<and> idx (after (getCookies x fc j ctx options clock))
           = filter (\<lambda>e. fst e \<notin> set (removals (getCookies x fc j ctx options clock))) (idx j)"
proof -
  let ?host = "canonicalDomain x (hostname ctx)"
  let ?f = "matchingCookie x ?host (requestPath ctx) (secureContext ctx options)
              (httpContext options) (requestNow options clock)
              (get_expire options \<noteq> Some False) (get_allPaths options) clock"
  let ?keep = "\<lambda>r. passes x ctx options clock (heap j r)"
  let ?evict = "\<lambda>r. inScope x ctx options (heap j r) \<and> evicted options clock (heap j r)"
  let ?rm = "map (\<lambda>r. identityOf (heap j r)) (filter ?evict cands)"
  let ?kept = "filter ?keep cands"
  let ?cmp = "\<lambda>a b. cookieCompare (heap j a) (heap j b)"
  let ?j1 = "applyRemovals j ?rm"
  have verdict: "\<And>r. r \<in> set cands \<Longrightarrow>
      ?f (heap j r) = Inr (if inScope x ctx options (heap j r)
                           then (if evicted options clock (heap j r) then Evict else Keep)
                           else Drop)"
  proof -
    fix r assume "r \<in> set cands"
    with filterSafe have "\<not> (inScope x ctx options (heap j r)
                              \<and> expiryThrows options clock (heap j r))"
      by (simp add: list_all_iff)
    then have "\<not> (hostFilter x ?host (heap j r)
              \<and> pathFilter (get_allPaths options) (requestPath ctx) (heap j r)
              \<and> flagFilter (secureContext ctx options) (httpContext options) (heap j r)
              \<and> get_expire options \<noteq> Some False \<and> throws (expiryTime (heap j r) None clock))"
      by (simp add: inScope_def expiryThrows_def)
    from matchingCookie_verdict [OF this]
    show "?f (heap j r) = Inr (if inScope x ctx options (heap j r)
                           then (if evicted options clock (heap j r) then Evict else Keep)
                           else Drop)"
      by (simp add: inScope_def evicted_def)
  qed
  then have "\<forall>r \<in> set cands. \<exists>v. ?f (heap j r) = Inr v" by blast
  from filterCandidates_total [OF this]
  have "filterCandidates ?f (heap j) cands
         = (Inr (filter (\<lambda>r. ?f (heap j r) = Inr Keep) cands),
            map (\<lambda>r. identityOf (heap j r)) (filter (\<lambda>r. ?f (heap j r) = Inr Evict) cands))" .
  moreover have "filter (\<lambda>r. ?f (heap j r) = Inr Keep) cands = ?kept"
    by (rule filter_cong) (auto simp: verdict passes_def)
  moreover have "filter (\<lambda>r. ?f (heap j r) = Inr Evict) cands = filter ?evict cands"
    by (rule filter_cong) (auto simp: verdict)
  ultimately have fcs: "filterCandidates ?f (heap j) cands = (Inr ?kept, ?rm)" by simp
  obtain ordered where
    srt: "(if get_sort options \<noteq> Some False then arraySort ?cmp ?kept else Inr ?kept) = Inr ordered"
    and m: "mset ordered = mset ?kept"
    and s: "get_sort options = Some False \<longrightarrow> ordered = ?kept"
  proof (cases "get_sort options = Some False")
    case True
    then show ?thesis using that [of ?kept] by simp
  next
    case False
    with sortSafe have "\<not> somePairThrows ?cmp ?kept" by simp
    from arraySort_safe [OF this] obtain ys where
      "arraySort ?cmp ?kept = Inr ys" "mset ys = mset ?kept" by blast
    with False show ?thesis using that [of ys] by simp
  qed
  have g: "getCookies x fc j ctx options clock
           = \<lparr> outcome = Inr (CbResult ordered),
               after = ?j1\<lparr>heap := touch clock (heap ?j1) ordered\<rparr>,
               removals = ?rm \<rparr>"
    unfolding getCookies_def Let_def
      requestPath_def [symmetric] secureContext_def [symmetric] httpContext_def [symmetric]
      requestNow_def [symmetric]
    using cands fcs srt by simp
  have i: "idx (?j1\<lparr>heap := touch clock (heap ?j1) ordered\<rparr>)
           = filter (\<lambda>e. fst e \<notin> set ?rm) (idx j)"
    by (simp add: applyRemovals_idx)
  show ?thesis
    unfolding g using m s i by simp
qed

section \<open>The jar at concrete inputs\<close>

theorem setCookie_replaces_witness:
  "map_of (idx jarAB) (identityOf (heap jarAB 2)) = Some 2
   \<and> creation (heap jarAB 2) = Some (DateValue 50)
   \<and> creationIndex (heap jarAB 2) = 1
   \<and> lastAccessed (heap jarAB 2) = Some 100"
proof -
  have "fst (setCookie noCollab jarA (Str ''a=2'') exampleCom noOptions 100) = CbResult 2"
    by code_simp
  then have res: "setCookie noCollab jarA (Str ''a=2'') exampleCom noOptions 100
                  = (CbResult 2, jarAB)"
    by (simp add: jarAB_def prod_eq_iff)
  have prior: "map_of (idx jarA) (identityOf (heap jarAB 2)) = Some 1" by code_simp
  have made: "1 \<le> cookiesCreated jarA" by code_simp
  have old: "creation (heap jarA 1) = Some (DateValue 50) \<and> creationIndex (heap jarA 1) = 1"
    by code_simp
  have now: "effectiveNow noOptions 100 = 100" by code_simp
  from setCookie_replaces [OF res prior made] old now show ?thesis by simp
qed

text \<open>
  C1 (as stated) fails where the caller supplies \<open>options.now\<close>: replacing \<open>a=1\<close> at
  clock reading 100 with \<open>options.now\<close> set to 5 leaves \<open>lastAccessed\<close> at 5, not at the
  current time.
\<close>

theorem setCookie_now_counterexample:
  "fst (setCookie noCollab jarA (Str ''a=2'') exampleCom (noOptions\<lparr>opt_now := Some 5\<rparr>) 100)
     = CbResult 2
   \<and> map_of (idx jarA) (Some ''example.com'', Some ''/'', ''a'') = Some 1
   \<and> lastAccessed (heap (snd (setCookie noCollab jarA (Str ''a=2'') exampleCom
                                   (noOptions\<lparr>opt_now := Some 5\<rparr>) 100)) 2) = Some 5"
  by code_simp

theorem setCookie_host_only_witness:
  "hostOnly (heap jarA 1) = Some True \<and> domain (heap jarA 1) = Some ''example.com''"
proof -
  have "fst (setCookie noCollab emptyJar (Str ''a=1'') exampleCom noOptions 50) = CbResult 1"
    by code_simp
  then have res: "setCookie noCollab emptyJar (Str ''a=1'') exampleCom noOptions 50
                  = (CbResult 1, jarA)"
    by (simp add: jarA_def prod_eq_iff)
  have nodomain: "\<not> truthy (domain (heap (snd (obtainCookie emptyJar (Str ''a=1'')
                       (effectiveLoose emptyJar noOptions) 50)) 1))"
    by code_simp
  have host: "canonicalDomain noCollab (hostname exampleCom) = Some ''example.com''"
    by code_simp
  from setCookie_host_only [OF res nodomain] host show ?thesis by simp
qed

theorem setCookie_path_witness:
  "path (heap jarA 1) = Some ''/'' \<and> pathIsDefault (heap jarA 1) = Some True"
proof -
  have "fst (setCookie noCollab emptyJar (Str ''a=1'') exampleCom noOptions 50) = CbResult 1"
    by code_simp
  then have res: "setCookie noCollab emptyJar (Str ''a=1'') exampleCom noOptions 50
                  = (CbResult 1, jarA)"
    by (simp add: jarA_def prod_eq_iff)
  have nopath: "\<not> truthy (path (heap (snd (obtainCookie emptyJar (Str ''a=1'')
                       (effectiveLoose emptyJar noOptions) 50)) 1))"
    by code_simp
  have dp: "defaultPath (pathname exampleCom) = ''/''" by code_simp
  from setCookie_path [OF res, of "None"] nopath dp show ?thesis by simp
qed

theorem setCookie_same_object_witness:
  "fst (setCookie noCollab jarObj (Obj 1) exampleCom noOptions 50) = CbResult 1
   \<and> map_of (idx (snd (setCookie noCollab jarObj (Obj 1) exampleCom noOptions 50)))
        (identityOf (heap (snd (setCookie noCollab jarObj (Obj 1) exampleCom noOptions 50)) 1))
      = Some 1
   \<and> key (heap (snd (setCookie noCollab jarObj (Obj 1) exampleCom noOptions 50)) 1) = ''k''
   \<and> cookiesCreated (snd (setCookie noCollab jarObj (Obj 1) exampleCom noOptions 50)) = 1"
proof -
  let ?res = "setCookie noCollab jarObj (Obj 1) exampleCom noOptions 50"
  have f: "fst ?res = CbResult 1" by code_simp
  then have res: "?res = (CbResult 1, snd ?res)" by (simp add: prod_eq_iff)
  have k: "key (heap jarObj 1) = ''k'' \<and> cookiesCreated jarObj = 1" by code_simp
  from setCookie_same_object [OF res] f k show ?thesis by simp
qed

theorem setCookie_policy_failures_witness:
  "fst (setCookie noCollab emptyJar (Str ''abc'') exampleCom noOptions 50) = CbError ParseError
   \<and> fst (setCookie noCollab emptyJar (Str ''a=1; Domain=com'') exampleCom
            (noOptions\<lparr>opt_ignoreError := True\<rparr>) 50) = CbNull"
proof -
  let ?ig = "noOptions\<lparr>opt_ignoreError := True\<rparr>"
  let ?o1 = "obtainCookie emptyJar (Str ''abc'') (effectiveLoose emptyJar noOptions) 50"
  let ?o2 = "obtainCookie emptyJar (Str ''a=1; Domain=com'') (effectiveLoose emptyJar ?ig) 50"
  have "fst ?o1 = None" by code_simp
  then have h1: "?o1 = (None, snd ?o1)" by (simp add: prod_eq_iff)
  have "fst ?o2 = Some 1" by code_simp
  then have h2: "?o2 = (Some 1, snd ?o2)" by (simp add: prod_eq_iff)
  have h3: "rejectPublicSuffixes (snd ?o2) \<and> truthy (domain (heap (snd ?o2) 1))" by code_simp
  have "cdomain noCollab (heap (snd ?o2) 1) = Some ''com'' \<and> getPublicSuffix noCollab ''com'' = None"
    by code_simp
  then have h4: "\<exists>d. cdomain noCollab (heap (snd ?o2) 1) = Some d \<and> getPublicSuffix noCollab d = None"
    by blast
  note parse = setCookie_policy_failures
    [where ?j0.0 = emptyJar and arg = "Str ''abc''" and options = noOptions and clock = 50
       and j = "snd ?o1" and x = noCollab and ctx = exampleCom]
  note suffix = setCookie_policy_failures
    [where ?j0.0 = emptyJar and arg = "Str ''a=1; Domain=com''" and options = ?ig and clock = 50
       and j = "snd ?o2" and r = 1 and x = noCollab and ctx = exampleCom]
  have d1: "deliver noOptions ParseError = CbError ParseError" by code_simp
  have d2: "deliver ?ig PublicSuffixError = CbNull" by code_simp
  have a: "fst (setCookie noCollab emptyJar (Str ''abc'') exampleCom noOptions 50)
           = CbError ParseError"
    using parse [THEN conjunct1, THEN mp, OF h1] d1 by simp
  have b: "fst (setCookie noCollab emptyJar (Str ''a=1; Domain=com'') exampleCom ?ig 50) = CbNull"
    using suffix [THEN conjunct2, THEN conjunct1, THEN mp, OF conjI [OF h2 conjI [OF h3 [THEN conjunct1] conjI [OF h3 [THEN conjunct2] h4]]]] d2
    by simp
  from a b show ?thesis by blast
qed

theorem getCookies_filters_witness:
  "outcome (getCookies noCollab allCandidates jarE exampleCom noGetOptions 200)
     = Inr (CbResult [])
   \<and> removals (getCookies noCollab allCandidates jarE exampleCom noGetOptions 200)
       = [(Some ''example.com'', Some ''/'', ''e'')]
   \<and> idx (after (getCookies noCollab allCandidates jarE exampleCom noGetOptions 200)) = []
   \<and> (\<exists>rs. outcome (getCookies noCollab allCandidates jarP
                       (exampleCom\<lparr>pathname := Some ''/x/y''\<rparr>) noGetOptions 200)
               = Inr (CbResult rs)
            \<and> mset rs = mset [2, 1])"
proof -
  let ?g = "getCookies noCollab allCandidates jarE exampleCom noGetOptions 200"
  have cands: "allCandidates (idx jarE) (canonicalDomain noCollab (hostname exampleCom))
                 (if get_allPaths noGetOptions then None else Some (requestPath exampleCom))
               = Inr [1]"
    by code_simp
  have filterSafe: "list_all (\<lambda>r. \<not> (inScope noCollab exampleCom noGetOptions (heap jarE r)
                                        \<and> expiryThrows noGetOptions 200 (heap jarE r))) [1]"
    by code_simp
  have keep: "filter (\<lambda>r. passes noCollab exampleCom noGetOptions 200 (heap jarE r)) [1] = []"
    by code_simp
  have "\<not> somePairThrows (\<lambda>a b. cookieCompare (heap jarE a) (heap jarE b)) []" by simp
  with keep have sortSafe: "get_sort noGetOptions = Some False
       \<or> \<not> somePairThrows (\<lambda>a b. cookieCompare (heap jarE a) (heap jarE b))
             (filter (\<lambda>r. passes noCollab exampleCom noGetOptions 200 (heap jarE r)) [1])"
    by simp
  have evict: "map (\<lambda>r. identityOf (heap jarE r))
                 (filter (\<lambda>r. inScope noCollab exampleCom noGetOptions (heap jarE r)
                               \<and> evicted noGetOptions 200 (heap jarE r)) [1])
               = [(Some ''example.com'', Some ''/'', ''e'')]"
    by code_simp
  have stored: "idx jarE = [((Some ''example.com'', Some ''/'', ''e''), 1)]" by code_simp
  from getCookies_filters [where fc = allCandidates and j = jarE and x = noCollab
      and ctx = exampleCom and options = noGetOptions and cands = "[1]" and clock = 200,
      OF cands filterSafe sortSafe]
  obtain rs where
    "outcome ?g = Inr (CbResult rs)"
    "mset rs = mset (filter (\<lambda>r. passes noCollab exampleCom noGetOptions 200 (heap jarE r)) [1])"
    "removals ?g = map (\<lambda>r. identityOf (heap jarE r))
               (filter (\<lambda>r. inScope noCollab exampleCom noGetOptions (heap jarE r)
                             \<and> evicted noGetOptions 200 (heap jarE r)) [1])"
    "idx (after ?g) = filter (\<lambda>e. fst e \<notin> set (removals ?g)) (idx jarE)"
    by blast
  with keep evict stored have first:
    "outcome ?g = Inr (CbResult [])
     \<and> removals ?g = [(Some ''example.com'', Some ''/'', ''e'')]
     \<and> idx (after ?g) = []"
    by simp
  let ?ctx = "exampleCom\<lparr>pathname := Some ''/x/y''\<rparr>"
  let ?h = "getCookies noCollab allCandidates jarP ?ctx noGetOptions 200"
  have cands2: "allCandidates (idx jarP) (canonicalDomain noCollab (hostname ?ctx))
                 (if get_allPaths noGetOptions then None else Some (requestPath ?ctx))
               = Inr [2, 1]"
    by code_simp
  have filterSafe2: "list_all (\<lambda>r. \<not> (inScope noCollab ?ctx noGetOptions (heap jarP r)
                                        \<and> expiryThrows noGetOptions 200 (heap jarP r))) [2, 1]"
    by code_simp
  have keep2: "filter (\<lambda>r. passes noCollab ?ctx noGetOptions 200 (heap jarP r)) [2, 1] = [2, 1]"
    by code_simp
  have "\<not> somePairThrows (\<lambda>a b. cookieCompare (heap jarP a) (heap jarP b)) [2, 1]"
    by code_simp
  with keep2 have sortSafe2: "get_sort noGetOptions = Some False
       \<or> \<not> somePairThrows (\<lambda>a b. cookieCompare (heap jarP a) (heap jarP b))
             (filter (\<lambda>r. passes noCollab ?ctx noGetOptions 200 (heap jarP r)) [2, 1])"
    by simp
  from getCookies_filters [where fc = allCandidates and j = jarP and x = noCollab
      and ctx = ?ctx and options = noGetOptions and cands = "[2, 1]" and clock = 200,
      OF cands2 filterSafe2 sortSafe2]
  obtain rs2 where
    "outcome ?h = Inr (CbResult rs2)"
    "mset rs2 = mset (filter (\<lambda>r. passes noCollab ?ctx noGetOptions 200 (heap jarP r)) [2, 1])"
    by blast
  with keep2 have "\<exists>rs. outcome ?h = Inr (CbResult rs) \<and> mset rs = mset [2, 1]" by simp
  with first show ?thesis by blast
qed

text \<open>
  C2 (as stated) fails for an expired candidate that an earlier filter drops: the secure
  cookie of \<open>jarS\<close> expired in 1970, a request over \<open>http:\<close> drops it at the secure
  filter, and no removal is requested; the cookie stays in the store.
\<close>

theorem getCookies_eviction_counterexample:
  "map snd (idx jarS) = [1]
   \<and> evicted noGetOptions 100 (heap jarS 1)
   \<and> outcome (getCookies noCollab allCandidates jarS exampleCom noGetOptions 100)
       = Inr (CbResult [])
   \<and> removals (getCookies noCollab allCandidates jarS exampleCom noGetOptions 100) = []
   \<and> idx (after (getCookies noCollab allCandidates jarS exampleCom noGetOptions 100))
       = idx jarS"
  by code_simp

text \<open>
  Where the premises of the theorem fail, \<open>getCookies\<close> throws. The cookie of \<open>jarJ\<close>
  has a \<open>maxAge\<close> and the text \<open>Infinity\<close> as \<open>creation\<close>: it passes the scope filters,
  and \<open>expiryTime()\<close> calls \<open>getTime\<close> on the text. With expiry checking off the cookie
  is returned, as a single cookie is never compared.
\<close>

lemma getCookies_text_creation:
  "outcome (getCookies noCollab allCandidates jarJ exampleCom noGetOptions 200) = Inl TypeError
   \<and> outcome (getCookies noCollab allCandidates jarJ exampleCom
                (noGetOptions\<lparr>get_expire := Some False\<rparr>) 200) = Inr (CbResult [1])"
  by code_simp

text \<open>
  A numeric \<open>now\<close> of 0 is falsy, and the clock is read instead: the cookie of \<open>jarA\<close>
  with a \<open>maxAge\<close> of 1, created at 50, expires at 1050 and is evicted at clock reading
  20000. A \<open>Date\<close> at time 0 is taken as \<open>now\<close>, and the cookie is kept.
\<close>

lemma getCookies_numeric_now:
  "requestNow (noGetOptions\<lparr>get_now := Some (NumberArg 0)\<rparr>) 20000 = 20000
   \<and> requestNow (noGetOptions\<lparr>get_now := Some (DateArg 0)\<rparr>) 20000 = 0
   \<and> outcome (getCookies noCollab allCandidates
        (jarA\<lparr>heap := (heap jarA)(1 := (heap jarA 1)\<lparr>maxAge := Some (Finite 1)\<rparr>)\<rparr>)
        exampleCom (noGetOptions\<lparr>get_now := Some (NumberArg 0)\<rparr>) 20000) = Inr (CbResult [])
   \<and> outcome (getCookies noCollab allCandidates
        (jarA\<lparr>heap := (heap jarA)(1 := (heap jarA 1)\<lparr>maxAge := Some (Finite 1)\<rparr>)\<rparr>)
        exampleCom (noGetOptions\<lparr>get_now := Some (DateArg 0)\<rparr>) 20000) = Inr (CbResult [1])"
  by code_simp

end
